theory Spec2Isabelle
  imports Complex_Main
begin

section \<open>The fusion regression script (run\_pfusion\_regression.py)\<close>

text \<open>
  A shallow embedding of \<^verbatim>\<open>src/main/python/run_pfusion_regression.py\<close>.

  Conventions of the model.
  \<^item> A Python float is modelled by the real number it denotes and float arithmetic is
    exact arithmetic on reals; only finite floats are covered.
  \<^item> A string is a list of characters; a character is a code point below 256.
  \<^item> A YAML mapping is a record with one optional field per key the script reads:
    \<open>None\<close> is an absent key. Present values have the type the script expects
    (YAML nulls and values of another type are outside the model).
  \<^item> Exceptions are values of \<open>py_error\<close>; logging and process creation are events
    appended to a trace.
\<close>

subsection \<open>Exceptions\<close>

datatype py_error =
    KeyError string
  | IndexError
  | ValueError
  | TypeError
  | RuntimeError string
  | UnicodeDecodeError
  | FileNotFoundError
  | OSError

subsection \<open>Python strings\<close>

text \<open>
  \<^verbatim>\<open>str.isspace\<close> on code points below 256: TAB to CR, the separators FS to US,
  space, NEL and the no-break space.
\<close>

definition is_space :: "char \<Rightarrow> bool" where
  "is_space c \<longleftrightarrow>
     (let n = (of_char c :: nat)
      in (9 \<le> n \<and> n \<le> 13) \<or> (28 \<le> n \<and> n \<le> 32) \<or> n = 133 \<or> n = 160)"

text \<open>\<^verbatim>\<open>s.strip()\<close>\<close>

definition py_strip :: "string \<Rightarrow> string" where
  "py_strip s = rev (dropWhile is_space (rev (dropWhile is_space s)))"

text \<open>
  \<^verbatim>\<open>s.split(sep)\<close> for a non-empty separator: the fields between the non-overlapping
  occurrences of \<open>sep\<close>, found from the left. \<open>acc\<close> is the current field, reversed.
\<close>

function split_on :: "string \<Rightarrow> string \<Rightarrow> string \<Rightarrow> string list" where
  "split_on sep acc [] = [rev acc]"
| "split_on sep acc (c # cs) =
     (if sep \<noteq> [] \<and> take (length sep) (c # cs) = sep
      then rev acc # split_on sep [] (drop (length sep) (c # cs))
      else split_on sep (c # acc) cs)"
  by pat_completeness auto
termination
  by (relation "measure (\<lambda>(sep, acc, s). length s)") auto

text \<open>\<^verbatim>\<open>s.split(sep)\<close> raises ValueError on the empty separator.\<close>

definition py_split :: "string \<Rightarrow> string \<Rightarrow> py_error + string list" where
  "py_split s sep = (if sep = [] then Inl ValueError else Inr (split_on sep [] s))"

text \<open>
  \<^verbatim>\<open>xs[i]\<close> on a list: the positions \<open>0\<close> to \<open>len - 1\<close>, the same elements again as
  \<open>- len\<close> to \<open>- 1\<close>, and IndexError everywhere else.
\<close>

definition py_index :: "'a list \<Rightarrow> int \<Rightarrow> py_error + 'a" where
  "py_index xs i =
     (if 0 \<le> i \<and> i < int (length xs) then Inr (xs ! nat i)
      else if i < 0 \<and> - int (length xs) \<le> i then Inr (xs ! nat (int (length xs) + i))
      else Inl IndexError)"

text \<open>\<^verbatim>\<open>sep.join(xs)\<close> on a list of strings.\<close>

fun join :: "string \<Rightarrow> string list \<Rightarrow> string" where
  "join sep [] = []"
| "join sep [x] = x"
| "join sep (x # y # ys) = x @ sep @ join sep (y # ys)"

text \<open>
  A command token is a string or Python's \<^verbatim>\<open>None\<close> (what \<^verbatim>\<open>method.get('output')\<close> gives
  for an absent key). \<^verbatim>\<open>sep.join\<close> raises TypeError on a list that holds \<^verbatim>\<open>None\<close>.
\<close>

type_synonym token = "string option"

definition join_tokens :: "string \<Rightarrow> token list \<Rightarrow> py_error + string" where
  "join_tokens sep ts =
     (if None \<in> set ts then Inl TypeError else Inr (join sep (map the ts)))"

subsection \<open>Python numbers and their \<^verbatim>\<open>str\<close>\<close>

text \<open>
  A numeric parameter of the configuration is an integer or a float. \<open>PFloat m e\<close> is the
  float nearest to \<open>m * 10 ^ e\<close>; for up to 15 significant digits its \<^verbatim>\<open>str\<close> is the
  shortest decimal that reads back as the same float, which is \<open>m * 10 ^ e\<close> itself
  without trailing zeros, in the layout of \<^verbatim>\<open>repr\<close>: positional when the decimal point
  lies between \<open>-4\<close> and \<open>16\<close> digits from the first digit, with an exponent otherwise.
\<close>

datatype pynum = PInt int | PFloat int int

definition digit_char :: "nat \<Rightarrow> char" where
  "digit_char n = ''0123456789'' ! n"

function str_nat :: "nat \<Rightarrow> string" where
  "str_nat n = (if n < 10 then [digit_char n] else str_nat (n div 10) @ [digit_char (n mod 10)])"
  by pat_completeness auto
termination
  by (relation "measure id") auto

declare str_nat.simps [simp del]

definition str_int :: "int \<Rightarrow> string" where
  "str_int i = (if i < 0 then CHR ''-'' # str_nat (nat (- i)) else str_nat (nat i))"

text \<open>
  The layout of the significant digits \<open>ds\<close> with the decimal point \<open>decpt\<close> digits after
  the first one.
\<close>

definition float_layout :: "string \<Rightarrow> int \<Rightarrow> string" where
  "float_layout ds decpt =
     (let n = int (length ds)
      in if - 4 < decpt \<and> decpt \<le> 16 then
           (if decpt \<le> 0 then ''0.'' @ replicate (nat (- decpt)) (CHR ''0'') @ ds
            else if n \<le> decpt then ds @ replicate (nat (decpt - n)) (CHR ''0'') @ ''.0''
            else take (nat decpt) ds @ ''.'' @ drop (nat decpt) ds)
         else
           let x = str_nat (nat \<bar>decpt - 1\<bar>)
           in take 1 ds @ (if 1 < n then ''.'' @ drop 1 ds else [])
              @ ''e'' @ (if decpt - 1 < 0 then ''-'' else ''+'')
              @ (if length x < 2 then CHR ''0'' # x else x))"

definition repr_float :: "int \<Rightarrow> int \<Rightarrow> string" where
  "repr_float m e =
     (if m = 0 then ''0.0''
      else
        let all_digits = str_nat (nat \<bar>m\<bar>);
            ds = rev (dropWhile (\<lambda>c. c = CHR ''0'') (rev all_digits));
            body = float_layout ds (e + int (length all_digits))
        in (if m < 0 then CHR ''-'' # body else body))"

fun py_str :: "pynum \<Rightarrow> string" where
  "py_str (PInt i) = str_int i"
| "py_str (PFloat m e) = repr_float m e"

text \<open>\<^verbatim>\<open>d.get(key, default)\<close> on an optional field.\<close>

definition get_default :: "'a option \<Rightarrow> 'a \<Rightarrow> 'a" where
  "get_default v d = (case v of None \<Rightarrow> d | Some x \<Rightarrow> x)"

subsection \<open>The configuration\<close>

record run_ref =
  r_file :: "string option"

record fusion_method =
  m_name :: "string option"
  m_output :: "string option"
  m_k :: "pynum option"
  m_depth :: "pynum option"
  m_rrf_k :: "pynum option"
  m_alpha :: "pynum option"
  m_results :: "(string \<rightharpoonup> real list) option"

record topic_set =
  t_id :: "string option"
  t_qrel :: "string option"

record metric_spec =
  mt_command :: "string option"
  mt_params :: "string option"
  mt_separator :: "string option"
  mt_parse_index :: "int option"
  mt_metric :: "string option"
  mt_metric_precision :: "int option"

record yaml_data =
  y_methods :: "fusion_method list option"
  y_runs :: "run_ref list option"
  y_topics :: "topic_set list option"
  y_metrics :: "metric_spec list option"

text \<open>\<^verbatim>\<open>d[key]\<close> on an optional field: KeyError when the key is absent.\<close>

definition subscript :: "string \<Rightarrow> 'a option \<Rightarrow> py_error + 'a" where
  "subscript key v = (case v of None \<Rightarrow> Inl (KeyError key) | Some x \<Rightarrow> Inr x)"

text \<open>Sequencing: the first exception raised is the one that leaves the expression.\<close>

fun and_then :: "py_error + 'a \<Rightarrow> ('a \<Rightarrow> py_error + 'b) \<Rightarrow> py_error + 'b" where
  "and_then (Inl e) f = Inl e"
| "and_then (Inr x) f = f x"

subsection \<open>Events: log records and processes\<close>

datatype level = INFO | ERROR

text \<open>
  One constructor per logging call of the script. The text of a message is kept where it
  is a command line; elapsed times are left out.
\<close>

datatype msg =
    TestingMethods "string option list"
  | UsingNormalize string
  | RunningCommand string
  | CommandFailed int string
  | CommandError string py_error
  | Rendered string
  | VerifyBanner
  | EvalFailed py_error
  | Verdict bool real real string string string
  | ExecutionTime
  | SomeFailed
  | AllPassed
  | ConfigMissing
  | RunFileMissing string
  | UsingImplementation string

text \<open>\<open>Spawn cmd\<close>: a subprocess is started on the shell command line \<open>cmd\<close>.\<close>

datatype event = Log level msg | Spawn string

fun is_spawn :: "event \<Rightarrow> bool" where
  "is_spawn (Spawn c) = True"
| "is_spawn (Log l m) = False"

subsection \<open>Command construction\<close>

definition ANSERINI_FUSE_COMMAND :: string where
  "ANSERINI_FUSE_COMMAND = ''bin/run.sh io.anserini.fusion.FuseRuns''"

definition PYSERINI_FUSE_COMMAND :: string where
  "PYSERINI_FUSE_COMMAND = ''python -m pyserini.fusion''"

text \<open>\<^verbatim>\<open>supported_methods\<close> of \<^verbatim>\<open>construct_fusion_commands\<close> (line 77).\<close>

definition supported_methods :: "string list" where
  "supported_methods = [''rrf'', ''average'', ''interpolation'']"

text \<open>\<^verbatim>\<open>method.get('name') in supported_methods\<close>: an absent name is \<^verbatim>\<open>None\<close>, in no list.\<close>

definition name_in :: "string list \<Rightarrow> fusion_method \<Rightarrow> bool" where
  "name_in supported m = (case m_name m of None \<Rightarrow> False | Some n \<Rightarrow> n \<in> set supported)"

text \<open>\<^verbatim>\<open>[run['file'] for run in yaml_data['runs']]\<close>\<close>

fun files_of :: "run_ref list \<Rightarrow> py_error + string list" where
  "files_of [] = Inr []"
| "files_of (r # rs) =
     (case subscript ''file'' (r_file r) of
        Inl e \<Rightarrow> Inl e
      | Inr f \<Rightarrow> (case files_of rs of Inl e \<Rightarrow> Inl e | Inr fs \<Rightarrow> Inr (f # fs)))"

definition run_files_of :: "yaml_data \<Rightarrow> py_error + string list" where
  "run_files_of y =
     (case subscript ''runs'' (y_runs y) of Inl e \<Rightarrow> Inl e | Inr rs \<Rightarrow> files_of rs)"

text \<open>The Pyserini branch of the loop body (lines 89 to 108), for the run files \<open>fs\<close>.\<close>

definition pyserini_command :: "string list \<Rightarrow> fusion_method \<Rightarrow> event list \<times> token list" where
  "pyserini_command fs m =
     (let method_name = get_default (m_name m) ''average'';
          cmd = [Some PYSERINI_FUSE_COMMAND, Some ''--method'', Some method_name, Some ''--runs'']
                @ map Some fs
                @ [Some ''--output'', m_output m,
                   Some ''--runtag'', Some (''pyserini.'' @ method_name),
                   Some ''--k'', Some (py_str (get_default (m_k m) (PInt 1000))),
                   Some ''--depth'', Some (py_str (get_default (m_depth m) (PInt 1000)))]
      in if method_name = ''rrf'' then
           ([], cmd @ [Some ''--rrf.k'', Some (py_str (get_default (m_rrf_k m) (PInt 60)))])
         else if method_name = ''interpolation'' then
           ([], cmd @ [Some ''--alpha'', Some (py_str (get_default (m_alpha m) (PFloat 5 (- 1))))])
         else if method_name = ''normalize'' then
           ([Log INFO (UsingNormalize method_name)], cmd)
         else ([], cmd))"

text \<open>The Anserini branch (lines 111 to 121).\<close>

definition anserini_command :: "string list \<Rightarrow> fusion_method \<Rightarrow> token list" where
  "anserini_command fs m =
     (let method_name = get_default (m_name m) ''average''
      in [Some ANSERINI_FUSE_COMMAND,
          Some ''-runs'', Some (join '' '' fs),
          Some ''-output'', m_output m,
          Some ''-method'', Some method_name,
          Some ''-k'', Some (py_str (get_default (m_k m) (PInt 1000))),
          Some ''-depth'', Some (py_str (get_default (m_depth m) (PInt 1000))),
          Some ''-rrf_k'', Some (py_str (get_default (m_rrf_k m) (PInt 60))),
          Some ''-alpha'', Some (py_str (get_default (m_alpha m) (PFloat 5 (- 1))))])"

text \<open>One iteration of the loop at line 82: the events it logs and the command it appends.\<close>

definition fusion_command ::
  "yaml_data \<Rightarrow> bool \<Rightarrow> fusion_method \<Rightarrow> py_error + (event list \<times> token list)" where
  "fusion_command y use_pyserini m =
     (case run_files_of y of
        Inl e \<Rightarrow> Inl e
      | Inr fs \<Rightarrow>
          if use_pyserini then Inr (pyserini_command fs m)
          else Inr ([], anserini_command fs m))"

fun fusion_loop ::
  "yaml_data \<Rightarrow> bool \<Rightarrow> fusion_method list \<Rightarrow> event list \<times> (py_error + token list list)" where
  "fusion_loop y use_pyserini [] = ([], Inr [])"
| "fusion_loop y use_pyserini (m # ms) =
     (case fusion_command y use_pyserini m of
        Inl e \<Rightarrow> ([], Inl e)
      | Inr (evs, cmd) \<Rightarrow>
          (case fusion_loop y use_pyserini ms of
             (evs', Inl e) \<Rightarrow> (evs @ evs', Inl e)
           | (evs', Inr cmds) \<Rightarrow> (evs @ evs', Inr (cmd # cmds))))"

text \<open>
  \<^verbatim>\<open>construct_fusion_commands(yaml_data, use_pyserini)\<close>: the events logged, and the list of
  commands or the exception raised.
\<close>

definition construct_fusion_commands ::
  "yaml_data \<Rightarrow> bool \<Rightarrow> event list \<times> (py_error + token list list)" where
  "construct_fusion_commands y use_pyserini =
     (case subscript ''methods'' (y_methods y) of
        Inl e \<Rightarrow> ([], Inl e)
      | Inr ms \<Rightarrow>
          let filtered_methods = filter (name_in supported_methods) ms;
              (evs, r) = fusion_loop y use_pyserini filtered_methods
          in (Log INFO (TestingMethods (map m_name filtered_methods)) # evs, r))"

subsection \<open>The tolerance comparison\<close>

text \<open>
  \<^verbatim>\<open>def is_close(a, b, rel_tol=1e-9, abs_tol=0.0):
      return abs(a - b) <= max(rel_tol * max(abs(a), abs(b)), abs_tol)\<close>
  The two default arguments are the constants \<open>rel_tol_default\<close> and \<open>abs_tol_default\<close>;
  a call that omits them is \<open>is_close_default\<close>.
\<close>

definition is_close :: "real \<Rightarrow> real \<Rightarrow> real \<Rightarrow> real \<Rightarrow> bool" where
  "is_close a b rel_tol abs_tol \<longleftrightarrow>
     \<bar>a - b\<bar> \<le> max (rel_tol * max \<bar>a\<bar> \<bar>b\<bar>) abs_tol"

definition rel_tol_default :: real where
  "rel_tol_default = 1 / 10 ^ 9"

definition abs_tol_default :: real where
  "abs_tol_default = 0"

definition is_close_default :: "real \<Rightarrow> real \<Rightarrow> bool" where
  "is_close_default a b = is_close a b rel_tol_default abs_tol_default"

text \<open>
  The condition of the \<^verbatim>\<open>if\<close> at line 224 of \<^verbatim>\<open>evaluate_and_verify\<close>:
  \<^verbatim>\<open>is_close(expected, actual) or actual > expected\<close>.
\<close>

definition passes :: "real \<Rightarrow> real \<Rightarrow> bool" where
  "passes expected actual \<longleftrightarrow> is_close_default expected actual \<or> actual > expected"

text \<open>
  The command of one method for the run files \<open>fs\<close>: what the branch of the selected
  backend appends to \<^verbatim>\<open>commands\<close>.
\<close>

definition one_command :: "bool \<Rightarrow> string list \<Rightarrow> fusion_method \<Rightarrow> token list" where
  "one_command use_pyserini fs m =
     (if use_pyserini then snd (pyserini_command fs m) else anserini_command fs m)"

text \<open>\<open>has_args flag vals cmd\<close>: somewhere in \<open>cmd\<close> the token \<open>flag\<close> is followed by \<open>vals\<close>.\<close>

fun has_args :: "'a \<Rightarrow> 'a list \<Rightarrow> 'a list \<Rightarrow> bool" where
  "has_args flag vals [] = False"
| "has_args flag vals (t # ts) =
     ((t = flag \<and> take (length vals) ts = vals) \<or> has_args flag vals ts)"

subsection \<open>The environment\<close>

text \<open>
  What the script gets from outside, as parameters of the model.
  \<^item> \<open>open_yaml path\<close>: the configuration loaded from \<open>path\<close>, or the exception of
    \<^verbatim>\<open>open\<close> or \<^verbatim>\<open>yaml.safe_load\<close>.
  \<^item> \<open>path_exists\<close>: \<^verbatim>\<open>os.path.exists\<close> when the script starts.
  \<^item> \<open>sys_call tr cmd\<close>: \<^verbatim>\<open>subprocess.call(cmd, shell=True)\<close> after the events \<open>tr\<close>:
    the return code, or the exception raised.
  \<^item> \<open>sys_popen tr cmd\<close>: \<^verbatim>\<open>Popen(cmd, shell=True, stdout=PIPE).communicate()\<close> after
    the events \<open>tr\<close>: the return code and the output, \<open>None\<close> for bytes that are not
    UTF-8, or the exception raised.
  \<^item> \<open>float_of\<close>: the built-in \<^verbatim>\<open>float\<close> on a string, \<open>None\<close> for ValueError.
  \<^item> \<open>round_to\<close>: the built-in \<^verbatim>\<open>round(x, ndigits)\<close>.
\<close>

record env =
  open_yaml :: "string \<Rightarrow> py_error + yaml_data"
  path_exists :: "string \<Rightarrow> bool"
  sys_call :: "event list \<Rightarrow> string \<Rightarrow> py_error + int"
  sys_popen :: "event list \<Rightarrow> string \<Rightarrow> py_error + (int \<times> string option)"
  float_of :: "string \<Rightarrow> real option"
  round_to :: "real \<Rightarrow> int \<Rightarrow> real"

text \<open>A statement ends normally in a state, or raises an exception in a state.\<close>

datatype 'a outcome = Done 'a | Raised py_error 'a

subsection \<open>Running the fusion commands\<close>

text \<open>
  \<^verbatim>\<open>check_output(command)\<close> after the events \<open>tr\<close>: the process it starts, and its output
  or the exception.
\<close>

definition check_output ::
  "env \<Rightarrow> event list \<Rightarrow> string \<Rightarrow> event list \<times> (py_error + string option)" where
  "check_output ev tr command =
     ([Spawn command],
      case sys_popen ev (tr @ [Spawn command]) command of
        Inl e \<Rightarrow> Inl e
      | Inr (returncode, output) \<Rightarrow>
          if returncode = 0 then Inr output else Inl (RuntimeError command))"

text \<open>
  \<^verbatim>\<open>run_fusion_commands(cmds)\<close> from the trace \<open>tr\<close>. The \<^verbatim>\<open>join\<close> of line 133 stands
  outside the \<^verbatim>\<open>try\<close>: its TypeError ends the loop.
\<close>

fun run_fusion_commands :: "env \<Rightarrow> token list list \<Rightarrow> event list \<Rightarrow> event list outcome" where
  "run_fusion_commands ev [] tr = Done tr"
| "run_fusion_commands ev (cmd_list # cmds) tr =
     (case join_tokens '' '' cmd_list of
        Inl e \<Rightarrow> Raised e tr
      | Inr cmd \<Rightarrow>
          let tr1 = tr @ [Log INFO (RunningCommand cmd), Spawn cmd]
          in (case sys_call ev tr1 cmd of
                Inl e \<Rightarrow> run_fusion_commands ev cmds (tr1 @ [Log ERROR (CommandError cmd e)])
              | Inr return_code \<Rightarrow>
                  if return_code \<noteq> 0
                  then run_fusion_commands ev cmds (tr1 @ [Log ERROR (CommandFailed return_code cmd)])
                  else run_fusion_commands ev cmds tr1))"

subsection \<open>Evaluation and verification\<close>

text \<open>\<^verbatim>\<open>supported_methods\<close> of \<^verbatim>\<open>evaluate_and_verify\<close> (line 186).\<close>

definition eval_supported_methods :: "string list" where
  "eval_supported_methods = [''rrf'', ''average'', ''interpolation'', ''normalize'']"

text \<open>\<^verbatim>\<open>os.path.join(a, b)\<close> of \<^verbatim>\<open>posixpath\<close>.\<close>

definition path_join :: "string \<Rightarrow> string \<Rightarrow> string" where
  "path_join a b =
     (if take 1 b = ''/'' then b
      else if a = [] \<or> last a = CHR ''/'' then a @ b
      else a @ ''/'' @ b)"

text \<open>\<^verbatim>\<open>str(method.get('output'))\<close>\<close>

definition output_runfile :: "fusion_method \<Rightarrow> string" where
  "output_runfile m = (case m_output m of None \<Rightarrow> ''None'' | Some f \<Rightarrow> f)"

text \<open>The list \<^verbatim>\<open>eval_cmd\<close> of lines 196 to 201.\<close>

definition eval_cmd :: "fusion_method \<Rightarrow> topic_set \<Rightarrow> metric_spec \<Rightarrow> py_error + string list" where
  "eval_cmd m topic metric =
     (case subscript ''command'' (mt_command metric) of
        Inl e \<Rightarrow> Inl e
      | Inr command \<Rightarrow>
          Inr [command,
               (case mt_params metric of
                  None \<Rightarrow> []
                | Some p \<Rightarrow> if p \<noteq> [] then p else []),
               (case t_qrel topic of
                  None \<Rightarrow> []
                | Some q \<Rightarrow> if q \<noteq> [] then path_join ''tools/topics-and-qrels'' q else []),
               output_runfile m])"

text \<open>
  The expression of lines 208 and 209 on the output of the command: the last of the lines
  that are not blank, IndexError when there is none.
\<close>

definition last_line :: "string option \<Rightarrow> py_error + string" where
  "last_line output =
     (case output of
        None \<Rightarrow> Inl UnicodeDecodeError
      | Some text \<Rightarrow>
          py_index (filter (\<lambda>line. py_strip line \<noteq> []) (split_on [CHR 0x0A] [] text)) (- 1))"

text \<open>
  Lines 216 to 218, which stand after the \<^verbatim>\<open>try\<close>: the rounded expected and actual
  scores, or the exception of the first step that fails.
\<close>

definition parse_scores ::
  "env \<Rightarrow> fusion_method \<Rightarrow> nat \<Rightarrow> metric_spec \<Rightarrow> string \<Rightarrow> py_error + (real \<times> real)" where
  "parse_scores ev m i metric out =
     and_then (subscript ''separator'' (mt_separator metric)) (\<lambda>sep.
     and_then (py_split (py_strip out) sep) (\<lambda>parts.
     and_then (subscript ''parse_index'' (mt_parse_index metric)) (\<lambda>idx.
     and_then (py_index parts idx) (\<lambda>eval_out.
     and_then (subscript ''results'' (m_results m)) (\<lambda>res.
     and_then (subscript ''metric'' (mt_metric metric)) (\<lambda>name.
     and_then (subscript name (res name)) (\<lambda>scores.
     and_then (py_index scores (int i)) (\<lambda>score.
     and_then (subscript ''metric_precision'' (mt_metric_precision metric)) (\<lambda>prec.
     case float_of ev eval_out of
       None \<Rightarrow> Inl ValueError
     | Some x \<Rightarrow> Inr (round_to ev score prec, round_to ev x prec))))))))))"

text \<open>
  The names in \<^verbatim>\<open>result_str\<close> (line 221): \<^verbatim>\<open>metric["metric"]\<close>, \<^verbatim>\<open>method["name"]\<close> and
  \<^verbatim>\<open>topic_set["id"]\<close>, in the order the f-string reads them.
\<close>

definition result_names ::
  "fusion_method \<Rightarrow> topic_set \<Rightarrow> metric_spec \<Rightarrow> py_error + (string \<times> string \<times> string)" where
  "result_names m topic metric =
     and_then (subscript ''metric'' (mt_metric metric)) (\<lambda>metric_name.
     and_then (subscript ''name'' (m_name m)) (\<lambda>method_name.
     and_then (subscript ''id'' (t_id topic)) (\<lambda>topic_id.
       Inr (metric_name, method_name, topic_id))))"

text \<open>The state of \<^verbatim>\<open>evaluate_and_verify\<close>: the events so far and its two local variables.\<close>

record ev_state =
  trace :: "event list"
  failures :: bool
  results :: "string \<rightharpoonup> (string \<rightharpoonup> real)"

text \<open>\<^verbatim>\<open>results[method_name][metric_name] = actual\<close>, with the \<^verbatim>\<open>{}\<close> of line 230.\<close>

definition record_result ::
  "string \<Rightarrow> string \<Rightarrow> real \<Rightarrow> (string \<rightharpoonup> (string \<rightharpoonup> real)) \<Rightarrow> (string \<rightharpoonup> (string \<rightharpoonup> real))" where
  "record_result method_name metric_name actual res =
     (let inner = (case res method_name of None \<Rightarrow> Map.empty | Some d \<Rightarrow> d)
      in res(method_name \<mapsto> inner(metric_name \<mapsto> actual)))"

text \<open>
  The body of the innermost loop (lines 193 to 231) for the method \<open>m\<close>, the \<open>i\<close>-th topic
  set and one metric. \<open>Done\<close> is the end of the body or a \<^verbatim>\<open>continue\<close>.
\<close>

definition verify_triple ::
  "env \<Rightarrow> bool \<Rightarrow> fusion_method \<Rightarrow> nat \<Rightarrow> topic_set \<Rightarrow> metric_spec \<Rightarrow> ev_state
     \<Rightarrow> ev_state outcome" where
  "verify_triple ev dry_run m i topic metric st =
     (case eval_cmd m topic metric of
        Inl e \<Rightarrow> Raised e st
      | Inr cmd \<Rightarrow>
          if dry_run then Done (st\<lparr>trace := trace st @ [Log INFO (Rendered (join '' '' cmd))]\<rparr>)
          else
            let (evs, r) = check_output ev (trace st) (join '' '' cmd);
                st1 = st\<lparr>trace := trace st @ evs\<rparr>
            in (case (case r of Inl e \<Rightarrow> Inl e | Inr output \<Rightarrow> last_line output) of
                  Inl e \<Rightarrow> Done (st1\<lparr>trace := trace st1 @ [Log ERROR (EvalFailed e)]\<rparr>)
                | Inr out \<Rightarrow>
                    if py_strip out = [] then Done st1
                    else
                      (case parse_scores ev m i metric out of
                         Inl e \<Rightarrow> Raised e st1
                       | Inr (expected, actual) \<Rightarrow>
                           (case result_names m topic metric of
                              Inl e \<Rightarrow> Raised e st1
                            | Inr (metric_name, method_name, topic_id) \<Rightarrow>
                                if passes expected actual then
                                  Done (st1\<lparr>trace := trace st1 @
                                          [Log INFO (Verdict True expected actual
                                             metric_name method_name topic_id)],
                                        results := record_result method_name metric_name actual
                                                     (results st1)\<rparr>)
                                else
                                  Done (st1\<lparr>trace := trace st1 @
                                          [Log ERROR (Verdict False expected actual
                                             metric_name method_name topic_id)],
                                        failures := True,
                                        results := record_result method_name metric_name actual
                                                     (results st1)\<rparr>)))))"

text \<open>The loop over \<^verbatim>\<open>yaml_data['metrics']\<close> (line 192).\<close>

fun metrics_loop ::
  "env \<Rightarrow> bool \<Rightarrow> fusion_method \<Rightarrow> nat \<Rightarrow> topic_set \<Rightarrow> metric_spec list \<Rightarrow> ev_state
     \<Rightarrow> ev_state outcome" where
  "metrics_loop ev dry_run m i topic [] st = Done st"
| "metrics_loop ev dry_run m i topic (metric # metrics) st =
     (case verify_triple ev dry_run m i topic metric st of
        Raised e st' \<Rightarrow> Raised e st'
      | Done st' \<Rightarrow> metrics_loop ev dry_run m i topic metrics st')"

text \<open>The loop over \<^verbatim>\<open>enumerate(yaml_data['topics'])\<close> (line 191), from the index \<open>i\<close>.\<close>

fun topics_loop ::
  "env \<Rightarrow> bool \<Rightarrow> yaml_data \<Rightarrow> fusion_method \<Rightarrow> nat \<Rightarrow> topic_set list \<Rightarrow> ev_state
     \<Rightarrow> ev_state outcome" where
  "topics_loop ev dry_run y m i [] st = Done st"
| "topics_loop ev dry_run y m i (topic # topics) st =
     (case subscript ''metrics'' (y_metrics y) of
        Inl e \<Rightarrow> Raised e st
      | Inr metrics \<Rightarrow>
          (case metrics_loop ev dry_run m i topic metrics st of
             Raised e st' \<Rightarrow> Raised e st'
           | Done st' \<Rightarrow> topics_loop ev dry_run y m (Suc i) topics st'))"

text \<open>The loop over \<^verbatim>\<open>filtered_methods\<close> (line 190).\<close>

fun methods_loop ::
  "env \<Rightarrow> bool \<Rightarrow> yaml_data \<Rightarrow> fusion_method list \<Rightarrow> ev_state \<Rightarrow> ev_state outcome" where
  "methods_loop ev dry_run y [] st = Done st"
| "methods_loop ev dry_run y (m # ms) st =
     (case subscript ''topics'' (y_topics y) of
        Inl e \<Rightarrow> Raised e st
      | Inr topics \<Rightarrow>
          (case topics_loop ev dry_run y m 0 topics st of
             Raised e st' \<Rightarrow> Raised e st'
           | Done st' \<Rightarrow> methods_loop ev dry_run y ms st'))"

text \<open>
  \<^verbatim>\<open>evaluate_and_verify(yaml_data, dry_run)\<close> from the trace \<open>tr\<close>: the trace at its end,
  or the exception that leaves it and the trace then.
\<close>

definition evaluate_and_verify ::
  "env \<Rightarrow> yaml_data \<Rightarrow> bool \<Rightarrow> event list \<Rightarrow> event list outcome" where
  "evaluate_and_verify ev y dry_run tr =
     (let tr1 = tr @ [Log INFO VerifyBanner]
      in case subscript ''methods'' (y_methods y) of
           Inl e \<Rightarrow> Raised e tr1
         | Inr ms \<Rightarrow>
             (case methods_loop ev dry_run y (filter (name_in eval_supported_methods) ms)
                     \<lparr>trace = tr1, failures = False, results = Map.empty\<rparr> of
                Raised e st \<Rightarrow> Raised e (trace st)
              | Done st \<Rightarrow>
                  Done (trace st @ [Log INFO ExecutionTime,
                          if failures st then Log ERROR SomeFailed else Log INFO AllPassed])))"

subsection \<open>The script\<close>

record args =
  a_regression :: string
  a_dry_run :: bool
  a_use_pyserini :: bool

text \<open>How the process ends: \<^verbatim>\<open>exit(n)\<close> or the end of the script, or an uncaught exception.\<close>

datatype exit = Exit int | Uncaught py_error

text \<open>The exit status of the interpreter: 1 after an uncaught exception.\<close>

fun exit_status :: "exit \<Rightarrow> int" where
  "exit_status (Exit n) = n"
| "exit_status (Uncaught e) = 1"

text \<open>
  The loop of lines 276 to 279 over the runs \<open>rs\<close>: \<open>Inr None\<close> when every file exists,
  \<open>Inr (Some f)\<close> at the first file \<open>f\<close> that does not.
\<close>

fun check_run_files :: "env \<Rightarrow> run_ref list \<Rightarrow> py_error + string option" where
  "check_run_files ev [] = Inr None"
| "check_run_files ev (r # rs) =
     (case subscript ''file'' (r_file r) of
        Inl e \<Rightarrow> Inl e
      | Inr f \<Rightarrow> if \<not> path_exists ev f then Inr (Some f) else check_run_files ev rs)"

definition config_path :: "string \<Rightarrow> string" where
  "config_path regression = ''src/main/resources/fusion_regression/'' @ regression @ ''.yaml''"

text \<open>
  Lines 281 to 299, for the loaded configuration \<open>y\<close>: the fusion commands are built, then
  run or rendered, then the results are verified.
\<close>

definition fusion_phase :: "env \<Rightarrow> args \<Rightarrow> token list list \<Rightarrow> event list \<Rightarrow> event list outcome" where
  "fusion_phase ev a fusion_commands tr =
     (if a_dry_run a then
        (case join_tokens '' '' (concat fusion_commands) of
           Inl e \<Rightarrow> Raised e tr
         | Inr line \<Rightarrow> Done (tr @ [Log INFO (Rendered line)]))
      else run_fusion_commands ev fusion_commands tr)"

definition run_regression :: "env \<Rightarrow> args \<Rightarrow> yaml_data \<Rightarrow> exit \<times> event list" where
  "run_regression ev a y =
     (let tr0 = [Log INFO (UsingImplementation
                   (if a_use_pyserini a then ''Pyserini'' else ''Anserini''))];
          (evs, r) = construct_fusion_commands y (a_use_pyserini a);
          tr1 = tr0 @ evs
      in case r of
           Inl e \<Rightarrow> (Uncaught e, tr1)
         | Inr fusion_commands \<Rightarrow>
             (case fusion_phase ev a fusion_commands tr1 of
                Raised e tr2 \<Rightarrow> (Uncaught e, tr2)
              | Done tr2 \<Rightarrow>
                  (case evaluate_and_verify ev y (a_dry_run a) tr2 of
                     Raised e tr3 \<Rightarrow> (Uncaught e, tr3)
                   | Done tr3 \<Rightarrow> (Exit 0, tr3 @ [Log INFO ExecutionTime]))))"

text \<open>
  The script from line 257: how the process ends, and all its events. Only
  FileNotFoundError is caught when the configuration is loaded.
\<close>

definition main :: "env \<Rightarrow> args \<Rightarrow> exit \<times> event list" where
  "main ev a =
     (case open_yaml ev (config_path (a_regression a)) of
        Inl e \<Rightarrow>
          if e = FileNotFoundError then (Exit 1, [Log ERROR ConfigMissing]) else (Uncaught e, [])
      | Inr y \<Rightarrow>
          (case and_then (subscript ''runs'' (y_runs y)) (check_run_files ev) of
             Inl e \<Rightarrow> (Uncaught e, [])
           | Inr (Some f) \<Rightarrow> (Exit 1, [Log ERROR (RunFileMissing f)])
           | Inr None \<Rightarrow> run_regression ev a y))"

subsection \<open>Reading outcomes and traces\<close>

text \<open>The state in which a statement ends, normally or not.\<close>

fun final_state :: "'a outcome \<Rightarrow> 'a" where
  "final_state (Done s) = s"
| "final_state (Raised e s) = s"

text \<open>A log record of a FAIL verdict.\<close>

fun is_fail :: "event \<Rightarrow> bool" where
  "is_fail (Log l (Verdict ok expected actual metric_name method_name topic_id)) = (\<not> ok)"
| "is_fail ev = False"

text \<open>
  A verdict record obeys the pass rule: it says OK exactly when the condition of line 224
  holds of its two scores, at level INFO when OK and ERROR when not.
\<close>

fun verdict_ok :: "event \<Rightarrow> bool" where
  "verdict_ok (Log l (Verdict ok expected actual metric_name method_name topic_id)) =
     (ok = (is_close expected actual (1 / 10 ^ 9) 0 \<or> expected < actual)
      \<and> l = (if ok then INFO else ERROR))"
| "verdict_ok ev = True"

text \<open>The two summary records of line 236 and line 238.\<close>

fun is_summary :: "event \<Rightarrow> bool" where
  "is_summary (Log l SomeFailed) = True"
| "is_summary (Log l AllPassed) = True"
| "is_summary ev = False"

text \<open>
  From \<open>s\<close> to \<open>s'\<close> the trace only grows, the failure flag is set exactly when a FAIL
  verdict is among the new events, every new verdict obeys the pass rule, and no summary
  is among them.
\<close>

definition verdicts_step :: "ev_state \<Rightarrow> ev_state \<Rightarrow> bool" where
  "verdicts_step s s' \<longleftrightarrow>
     (\<exists>evs. trace s' = trace s @ evs
        \<and> failures s' = (failures s \<or> list_ex is_fail evs)
        \<and> list_all verdict_ok evs \<and> \<not> list_ex is_summary evs)"

text \<open>From \<open>s\<close> to \<open>s'\<close> the trace only grows, and by no process.\<close>

definition no_spawn_step :: "ev_state \<Rightarrow> ev_state \<Rightarrow> bool" where
  "no_spawn_step s s' \<longleftrightarrow> (\<exists>evs. trace s' = trace s @ evs \<and> \<not> list_ex is_spawn evs)"

text \<open>
  The event by which a triple shows in the trace: its evaluation command is rendered in
  a dry run and started otherwise.
\<close>

definition triple_event :: "bool \<Rightarrow> string list \<Rightarrow> event" where
  "triple_event dry_run cmd =
     (if dry_run then Log INFO (Rendered (join '' '' cmd)) else Spawn (join '' '' cmd))"

text \<open>\<open>contains sub s\<close>: \<open>sub\<close> occurs in \<open>s\<close> as a contiguous part.\<close>

fun contains :: "'a list \<Rightarrow> 'a list \<Rightarrow> bool" where
  "contains sub [] = (sub = [])"
| "contains sub (c # cs) = (take (length sub) (c # cs) = sub \<or> contains sub cs)"

subsection \<open>An example configuration and environment\<close>

text \<open>
  Two input runs, one topic set, one metric read from the third tab-separated field of
  the evaluator's last line, and the methods \<open>rrf\<close>, \<open>interpolation\<close> (with
  \<open>alpha = 0.7\<close>) and \<open>normalize\<close>, each expecting the score 0.4123.
\<close>

definition example_runs :: "run_ref list" where
  "example_runs = [\<lparr>r_file = Some ''runs/run.bm25.txt''\<rparr>, \<lparr>r_file = Some ''runs/run.dense.txt''\<rparr>]"

definition example_method :: "string \<Rightarrow> pynum option \<Rightarrow> fusion_method" where
  "example_method name alpha =
     \<lparr>m_name = Some name, m_output = Some (''runs/fused.'' @ name), m_k = None,
      m_depth = None, m_rrf_k = None, m_alpha = alpha,
      m_results = Some [''nDCG@10'' \<mapsto> [4123 / 10000]]\<rparr>"

definition example_topic :: topic_set where
  "example_topic = \<lparr>t_id = Some ''dl19'', t_qrel = Some ''qrels.dl19.txt''\<rparr>"

definition example_metric :: metric_spec where
  "example_metric =
     \<lparr>mt_command = Some ''bin/trec_eval'', mt_params = Some ''-m ndcg_cut.10'',
      mt_separator = Some [CHR 0x09], mt_parse_index = Some 2, mt_metric = Some ''nDCG@10'',
      mt_metric_precision = Some 4\<rparr>"

definition example_config :: "fusion_method list \<Rightarrow> yaml_data" where
  "example_config ms =
     \<lparr>y_methods = Some ms, y_runs = Some example_runs, y_topics = Some [example_topic],
      y_metrics = Some [example_metric]\<rparr>"

text \<open>
  \<^verbatim>\<open>float\<close> on plain decimal literals (an optional sign, digits, an optional point and
  digits, blanks around them); every other string is ValueError here.
\<close>

definition digit_value :: "char \<Rightarrow> nat" where
  "digit_value c = of_char c - 48"

definition is_digit :: "char \<Rightarrow> bool" where
  "is_digit c \<longleftrightarrow> 48 \<le> (of_char c :: nat) \<and> (of_char c :: nat) \<le> 57"

definition digits_value :: "string \<Rightarrow> nat" where
  "digits_value ds = foldl (\<lambda>v c. 10 * v + digit_value c) 0 ds"

definition decimal_float :: "string \<Rightarrow> real option" where
  "decimal_float s =
     (let t = py_strip s;
          negative = (take 1 t = ''-'');
          u = (if take 1 t = ''-'' \<or> take 1 t = ''+'' then drop 1 t else t);
          ip = takeWhile (\<lambda>c. c \<noteq> CHR ''.'') u;
          fp = drop (Suc (length ip)) u
      in if (ip = [] \<and> fp = []) \<or> \<not> list_all is_digit (ip @ fp) then None
         else
           let v = real (digits_value ip) + real (digits_value fp) / 10 ^ length fp
           in Some (if negative then - v else v))"

text \<open>\<^verbatim>\<open>round(x, ndigits)\<close> on exact decimals: to the nearest multiple, ties to even.\<close>

definition round_half_even :: "real \<Rightarrow> int" where
  "round_half_even x =
     (let f = \<lfloor>x\<rfloor>; d = x - of_int f
      in if d < 1 / 2 then f else if 1 / 2 < d then f + 1 else if even f then f else f + 1)"

definition decimal_round :: "real \<Rightarrow> int \<Rightarrow> real" where
  "decimal_round x ndigits =
     (if 0 \<le> ndigits then of_int (round_half_even (x * 10 ^ nat ndigits)) / 10 ^ nat ndigits
      else of_int (round_half_even (x / 10 ^ nat (- ndigits))) * 10 ^ nat (- ndigits))"

text \<open>
  An environment where the configuration \<open>y\<close> is the regression \<open>demo\<close>, every path
  exists, every fusion command returns 0 and every evaluation command ends as \<open>eval\<close>.
\<close>

definition example_env :: "yaml_data \<Rightarrow> py_error + (int \<times> string option) \<Rightarrow> env" where
  "example_env y eval =
     \<lparr>open_yaml = (\<lambda>path. if path = config_path ''demo'' then Inr y else Inl FileNotFoundError),
      path_exists = (\<lambda>path. True),
      sys_call = (\<lambda>tr cmd. Inr 0),
      sys_popen = (\<lambda>tr cmd. eval),
      float_of = decimal_float,
      round_to = decimal_round\<rparr>"

text \<open>The last line of an evaluator that reports \<open>score\<close>.\<close>

definition trec_eval_output :: "string \<Rightarrow> string" where
  "trec_eval_output score = ''ndcg_cut_10'' @ [CHR 0x09] @ ''all'' @ [CHR 0x09] @ score @ [CHR 0x0A]"

section \<open>Properties\<close>

subsection \<open>Auxiliary facts\<close>

lemma is_close_default_iff:
  "is_close_default e a \<longleftrightarrow> \<bar>e - a\<bar> * 1000000000 \<le> max \<bar>e\<bar> \<bar>a\<bar>"
proof -
  have "0 \<le> max \<bar>e\<bar> \<bar>a\<bar>" by simp
  then have "max (max \<bar>e\<bar> \<bar>a\<bar> / 1000000000) 0 = max \<bar>e\<bar> \<bar>a\<bar> / 1000000000"
    by (simp add: max_def)
  then show ?thesis
    by (simp add: is_close_default_def is_close_def rel_tol_default_def abs_tol_default_def
        pos_le_divide_eq)
qed

lemma has_args_append: "has_args flag vals (pre @ flag # vals @ post)"
  by (induction pre) auto

lemma fusion_loop_ok:
  "run_files_of y = Inr fs \<Longrightarrow>
   snd (fusion_loop y b ms) = Inr (map (one_command b fs) ms)"
proof (induction ms)
  case Nil
  then show ?case by simp
next
  case (Cons m ms)
  then show ?case
    by (cases b; cases "fusion_loop y b ms"; cases "pyserini_command fs m")
       (auto simp: fusion_command_def one_command_def split: sum.splits)
qed

lemma fusion_loop_err:
  "run_files_of y = Inl e \<Longrightarrow> fusion_loop y b ms = (if ms = [] then ([], Inr []) else ([], Inl e))"
  by (cases ms) (auto simp: fusion_command_def)

lemma pyserini_command_events:
  "fst (pyserini_command fs m) = [] \<or> fst (pyserini_command fs m) = [Log INFO (UsingNormalize ''normalize'')]"
  by (simp add: pyserini_command_def Let_def)

lemma fusion_command_no_spawn:
  assumes "fusion_command y b m = Inr (evs, cmd)"
  shows "\<forall>ev\<in>set evs. \<not> is_spawn ev"
proof (cases "run_files_of y")
  case (Inl e)
  then show ?thesis using assms by (simp add: fusion_command_def)
next
  case (Inr fs)
  show ?thesis
  proof (cases b)
    case True
    with Inr assms have "evs = fst (pyserini_command fs m)" by (auto simp: fusion_command_def)
    then show ?thesis using pyserini_command_events [of fs m] by auto
  next
    case False
    with Inr assms show ?thesis by (auto simp: fusion_command_def)
  qed
qed

lemma fusion_loop_no_spawn: "\<forall>ev\<in>set (fst (fusion_loop y b ms)). \<not> is_spawn ev"
proof (induction ms)
  case Nil
  then show ?case by simp
next
  case (Cons m ms)
  show ?case
  proof (cases "fusion_command y b m")
    case (Inl e)
    then show ?thesis by simp
  next
    case (Inr p)
    obtain evs cmd where p: "p = (evs, cmd)" by (cases p)
    obtain evs' r where l: "fusion_loop y b ms = (evs', r)" by (cases "fusion_loop y b ms")
    from Inr p have "\<forall>ev\<in>set evs. \<not> is_spawn ev" using fusion_command_no_spawn by blast
    moreover from Cons l have "\<forall>ev\<in>set evs'. \<not> is_spawn ev" by simp
    ultimately show ?thesis using Inr p l by (cases r) auto
  qed
qed

lemma digit_char_in: "n < 10 \<Longrightarrow> digit_char n \<in> set ''0123456789''"
  unfolding digit_char_def by (rule nth_mem) simp

lemma str_nat_digits: "set (str_nat n) \<subseteq> set ''0123456789''"
proof (induction n rule: str_nat.induct)
  case (1 n)
  show ?case
  proof (cases "n < 10")
    case True
    then show ?thesis using digit_char_in [of n] by (subst str_nat.simps) simp
  next
    case False
    have "n mod 10 < 10" by simp
    from digit_char_in [OF this] 1 [OF False] False show ?thesis
      by (subst str_nat.simps) simp
  qed
qed

lemma float_layout_chars:
  assumes "set ds \<subseteq> D" and "set ''0123456789.e+-'' \<subseteq> D"
  shows "set (float_layout ds decpt) \<subseteq> D"
proof -
  have t: "\<And>k c. c \<in> set (take k ds) \<Longrightarrow> c \<in> D" "\<And>k c. c \<in> set (drop k ds) \<Longrightarrow> c \<in> D"
    using assms(1) by (auto dest: in_set_takeD in_set_dropD)
  have x: "\<And>n c. c \<in> set (str_nat n) \<Longrightarrow> c \<in> D" using str_nat_digits assms(2) by fastforce
  have c: "CHR ''0'' \<in> D" "CHR ''.'' \<in> D" "CHR ''e'' \<in> D" "CHR ''+'' \<in> D" "CHR ''-'' \<in> D"
    using assms(2) by simp_all
  show ?thesis
    unfolding float_layout_def Let_def
    using assms(1) t x c by (auto split: if_splits)
qed

lemma digits_subset: "set ''0123456789'' \<subseteq> set ''0123456789.e+-''"
  by simp

lemma repr_float_chars: "set (repr_float m e) \<subseteq> set ''0123456789.e+-''"
proof -
  define D where "D = set ''0123456789.e+-''"
  have lit: "set ''0123456789.e+-'' \<subseteq> D" by (simp only: D_def subset_refl)
  have dig: "set (str_nat n) \<subseteq> D" for n
    unfolding D_def using str_nat_digits digits_subset by (rule subset_trans)
  have fl: "set (float_layout (rev (dropWhile (\<lambda>c. c = CHR ''0'') (rev (str_nat n)))) d) \<subseteq> D" for n d
  proof (rule float_layout_chars [OF _ lit])
    have "set (rev (dropWhile (\<lambda>c. c = CHR ''0'') (rev (str_nat n)))) \<subseteq> set (str_nat n)"
      using set_dropWhileD [of _ "\<lambda>c. c = CHR ''0''" "rev (str_nat n)"] by auto
    then show "set (rev (dropWhile (\<lambda>c. c = CHR ''0'') (rev (str_nat n)))) \<subseteq> D"
      using dig [of n] by (rule subset_trans)
  qed
  have m: "CHR ''-'' \<in> D" "CHR ''0'' \<in> D" "CHR ''.'' \<in> D" by (simp_all add: D_def)
  have "set (repr_float m e) \<subseteq> D"
    using fl m by (simp add: repr_float_def Let_def)
  then show ?thesis by (simp only: D_def)
qed

lemma py_str_chars: "set (py_str v) \<subseteq> set ''0123456789.e+-''"
proof (cases v)
  case (PInt i)
  have "set (str_nat n) \<subseteq> set ''0123456789.e+-''" for n
    using str_nat_digits digits_subset by (rule subset_trans)
  then show ?thesis using PInt by (simp add: str_int_def)
next
  case (PFloat m e)
  then show ?thesis using repr_float_chars by simp
qed

lemma has_args_appendI: "has_args flag vals xs \<Longrightarrow> has_args flag vals (xs @ ys)"
proof (induction xs)
  case Nil
  then show ?case by simp
next
  case (Cons t ts)
  have "take (length vals) ts = vals \<Longrightarrow> take (length vals) (ts @ ys) = vals"
    by (metis append_Nil2 diff_is_0_eq length_take min.cobounded1 take_0 take_append)
  with Cons show ?case by auto
qed

lemma name_in_supported:
  "name_in supported_methods m \<longleftrightarrow>
     m_name m \<in> {Some ''rrf'', Some ''average'', Some ''interpolation''}"
  by (cases "m_name m") (auto simp: name_in_def supported_methods_def)

lemma files_of_ok:
  "\<forall>r\<in>set rs. r_file r \<noteq> None \<Longrightarrow> files_of rs = Inr (map (\<lambda>r. the (r_file r)) rs)"
  by (induction rs) (auto simp: subscript_def)

lemma files_of_err:
  "\<exists>r\<in>set rs. r_file r = None \<Longrightarrow> files_of rs = Inl (KeyError ''file'')"
proof (induction rs)
  case Nil
  then show ?case by simp
next
  case (Cons r rs)
  then show ?case
    by (cases "r_file r"; cases "\<exists>r\<in>set rs. r_file r = None")
       (auto simp: subscript_def split: sum.splits)
qed

lemma run_files_of_cases:
  "run_files_of y =
     (case y_runs y of
        None \<Rightarrow> Inl (KeyError ''runs'')
      | Some rs \<Rightarrow>
          if \<exists>r\<in>set rs. r_file r = None then Inl (KeyError ''file'')
          else Inr (map (\<lambda>r. the (r_file r)) rs))"
  using files_of_ok files_of_err
  by (cases "y_runs y") (auto simp: run_files_of_def subscript_def)

lemma construct_cases:
  "snd (construct_fusion_commands y b) =
     (case y_methods y of
        None \<Rightarrow> Inl (KeyError ''methods'')
      | Some ms \<Rightarrow>
          if filter (name_in supported_methods) ms = [] then Inr []
          else (case run_files_of y of
                  Inl e \<Rightarrow> Inl e
                | Inr fs \<Rightarrow> Inr (map (one_command b fs) (filter (name_in supported_methods) ms))))"
proof (cases "y_methods y")
  case None
  then show ?thesis by (simp add: construct_fusion_commands_def subscript_def)
next
  case (Some ms)
  let ?fm = "filter (name_in supported_methods) ms"
  have c: "snd (construct_fusion_commands y b) = snd (fusion_loop y b ?fm)"
    using Some by (simp add: construct_fusion_commands_def subscript_def Let_def split: prod.splits)
  show ?thesis
  proof (cases "run_files_of y")
    case (Inl e)
    then show ?thesis using c Some fusion_loop_err [OF Inl, of b ?fm] by simp
  next
    case (Inr fs)
    then show ?thesis using c Some fusion_loop_ok [OF Inr, of b ?fm] by simp
  qed
qed

lemma construct_no_spawn: "\<forall>ev\<in>set (fst (construct_fusion_commands y b)). \<not> is_spawn ev"
proof (cases "y_methods y")
  case None
  then show ?thesis by (simp add: construct_fusion_commands_def subscript_def)
next
  case (Some ms)
  then show ?thesis
    using fusion_loop_no_spawn [of y b "filter (name_in supported_methods) ms"]
    by (simp add: construct_fusion_commands_def subscript_def Let_def split: prod.splits)
qed

text \<open>The tokens the Pyserini branch appends after \<^verbatim>\<open>--depth\<close>.\<close>

lemma pyserini_shape:
  "snd (pyserini_command fs m) =
     [Some PYSERINI_FUSE_COMMAND, Some ''--method'', Some (get_default (m_name m) ''average''),
      Some ''--runs''] @ map Some fs @
     [Some ''--output'', m_output m,
      Some ''--runtag'', Some (''pyserini.'' @ get_default (m_name m) ''average''),
      Some ''--k'', Some (py_str (get_default (m_k m) (PInt 1000))),
      Some ''--depth'', Some (py_str (get_default (m_depth m) (PInt 1000)))] @
     (if get_default (m_name m) ''average'' = ''rrf''
      then [Some ''--rrf.k'', Some (py_str (get_default (m_rrf_k m) (PInt 60)))]
      else if get_default (m_name m) ''average'' = ''interpolation''
      then [Some ''--alpha'', Some (py_str (get_default (m_alpha m) (PFloat 5 (- 1))))]
      else [])"
  by (simp add: pyserini_command_def Let_def)

lemma pyserini_has_runs:
  "has_args (Some ''--runs'') (map Some fs) (snd (pyserini_command fs m))"
proof -
  have "has_args (Some ''--runs'') (map Some fs) ([a, b, c] @ Some ''--runs'' # map Some fs @ post)"
    for a b c :: token and post
    by (rule has_args_append)
  then show ?thesis by (simp only: pyserini_shape append_Cons append_Nil)
qed

lemma pyserini_has_output:
  "has_args (Some ''--output'') [m_output m] (snd (pyserini_command fs m))"
proof -
  have "has_args (Some ''--output'') [m_output m]
          (([a, b, c, d] @ map Some fs) @ Some ''--output'' # [m_output m] @ post)"
    for a b c d :: token and post
    by (rule has_args_append)
  then show ?thesis by (simp only: pyserini_shape append_Cons append_Nil append_assoc)
qed

lemma pyserini_has_runtag:
  "has_args (Some ''--runtag'') [Some (''pyserini.'' @ get_default (m_name m) ''average'')]
     (snd (pyserini_command fs m))"
proof -
  have "has_args (Some ''--runtag'') [Some (''pyserini.'' @ get_default (m_name m) ''average'')]
          (([a, b, c, d] @ map Some fs @ [e, f]) @ Some ''--runtag'' #
            [Some (''pyserini.'' @ get_default (m_name m) ''average'')] @ post)"
    for a b c d e f :: token and post
    by (rule has_args_append)
  then show ?thesis by (simp only: pyserini_shape append_Cons append_Nil append_assoc)
qed

lemma anserini_has:
  "has_args (Some ''-runs'') [Some (join '' '' fs)] (anserini_command fs m)"
  "has_args (Some ''-output'') [m_output m] (anserini_command fs m)"
  by (simp_all add: anserini_command_def Let_def ANSERINI_FUSE_COMMAND_def)


lemma py_str_not_flag: "py_str v \<noteq> ''--rrf.k''" "py_str v \<noteq> ''--alpha''"
proof -
  have r: "CHR ''r'' \<notin> set ''0123456789.e+-''" and a: "CHR ''a'' \<notin> set ''0123456789.e+-''"
    by simp_all
  show "py_str v \<noteq> ''--rrf.k''"
  proof
    assume "py_str v = ''--rrf.k''"
    then have "CHR ''r'' \<in> set (py_str v)" by simp
    with py_str_chars [of v] r show False by blast
  qed
  show "py_str v \<noteq> ''--alpha''"
  proof
    assume "py_str v = ''--alpha''"
    then have "CHR ''a'' \<in> set (py_str v)" by simp
    with py_str_chars [of v] a show False by blast
  qed
qed

lemma py_str_defaults:
  "py_str (PInt 1000) = ''1000''" "py_str (PInt 60) = ''60''" "py_str (PFloat 5 (- 1)) = ''0.5''"
  by code_simp+

lemma anserini_has_params:
  "has_args (Some ''-k'') [Some (py_str (get_default (m_k m) (PInt 1000)))] (anserini_command fs m)"
  "has_args (Some ''-depth'') [Some (py_str (get_default (m_depth m) (PInt 1000)))] (anserini_command fs m)"
  "has_args (Some ''-rrf_k'') [Some (py_str (get_default (m_rrf_k m) (PInt 60)))] (anserini_command fs m)"
  "has_args (Some ''-alpha'') [Some (py_str (get_default (m_alpha m) (PFloat 5 (- 1))))] (anserini_command fs m)"
  by (simp_all add: anserini_command_def Let_def)

lemma get_default_str:
  "py_str (get_default v (PInt 1000)) = (case v of None \<Rightarrow> ''1000'' | Some x \<Rightarrow> py_str x)"
  "py_str (get_default v (PInt 60)) = (case v of None \<Rightarrow> ''60'' | Some x \<Rightarrow> py_str x)"
  "py_str (get_default v (PFloat 5 (- 1))) = (case v of None \<Rightarrow> ''0.5'' | Some x \<Rightarrow> py_str x)"
  using py_str_defaults by (cases v; simp add: get_default_def)+

lemma pyserini_has_rrf_k:
  assumes "get_default (m_name m) ''average'' = ''rrf''"
  shows "has_args (Some ''--rrf.k'') [Some (py_str (get_default (m_rrf_k m) (PInt 60)))]
           (snd (pyserini_command fs m))"
proof -
  have eq: "snd (pyserini_command fs m) =
     ([Some PYSERINI_FUSE_COMMAND, Some ''--method'', Some ''rrf'', Some ''--runs''] @ map Some fs @
      [Some ''--output'', m_output m, Some ''--runtag'', Some ''pyserini.rrf'',
       Some ''--k'', Some (py_str (get_default (m_k m) (PInt 1000))),
       Some ''--depth'', Some (py_str (get_default (m_depth m) (PInt 1000)))]) @
     Some ''--rrf.k'' # [Some (py_str (get_default (m_rrf_k m) (PInt 60)))] @ []"
    using assms by (simp add: pyserini_shape)
  show ?thesis unfolding eq by (rule has_args_append)
qed

lemma pyserini_has_alpha:
  assumes "get_default (m_name m) ''average'' = ''interpolation''"
  shows "has_args (Some ''--alpha'') [Some (py_str (get_default (m_alpha m) (PFloat 5 (- 1))))]
           (snd (pyserini_command fs m))"
proof -
  have eq: "snd (pyserini_command fs m) =
     ([Some PYSERINI_FUSE_COMMAND, Some ''--method'', Some ''interpolation'', Some ''--runs''] @
      map Some fs @
      [Some ''--output'', m_output m, Some ''--runtag'', Some ''pyserini.interpolation'',
       Some ''--k'', Some (py_str (get_default (m_k m) (PInt 1000))),
       Some ''--depth'', Some (py_str (get_default (m_depth m) (PInt 1000)))]) @
     Some ''--alpha'' # [Some (py_str (get_default (m_alpha m) (PFloat 5 (- 1))))] @ []"
    using assms by (simp add: pyserini_shape)
  show ?thesis unfolding eq by (rule has_args_append)
qed

lemma pyserini_flag_iff:
  assumes "n \<in> {''rrf'', ''average'', ''interpolation''}" and "m_name m = Some n"
    and "\<forall>f\<in>set fs. f \<noteq> ''--rrf.k'' \<and> f \<noteq> ''--alpha''"
    and "m_output m \<noteq> Some ''--rrf.k''" and "m_output m \<noteq> Some ''--alpha''"
  shows "Some ''--rrf.k'' \<in> set (snd (pyserini_command fs m)) \<longleftrightarrow> n = ''rrf''"
    and "Some ''--alpha'' \<in> set (snd (pyserini_command fs m)) \<longleftrightarrow> n = ''interpolation''"
proof -
  have g: "get_default (m_name m) ''average'' = n" using assms(2) by (simp add: get_default_def)
  have fs: "Some ''--rrf.k'' \<notin> Some ` set fs" "Some ''--alpha'' \<notin> Some ` set fs"
    using assms(3) by auto
  note nf = py_str_not_flag [symmetric] py_str_not_flag
  show "Some ''--rrf.k'' \<in> set (snd (pyserini_command fs m)) \<longleftrightarrow> n = ''rrf''"
    using assms(1,4) fs(1) nf
    by (auto simp add: pyserini_shape g PYSERINI_FUSE_COMMAND_def simp del: py_str.simps)
  show "Some ''--alpha'' \<in> set (snd (pyserini_command fs m)) \<longleftrightarrow> n = ''interpolation''"
    using assms(1,5) fs(2) nf
    by (auto simp add: pyserini_shape g PYSERINI_FUSE_COMMAND_def simp del: py_str.simps)
qed


lemma construct_member:
  assumes "y_methods y = Some ms" and "y_runs y = Some rs" and "\<forall>r\<in>set rs. r_file r \<noteq> None"
    and "m \<in> set ms" and "m_name m = Some n" and "n \<in> {''rrf'', ''average'', ''interpolation''}"
  shows "\<exists>cmds. snd (construct_fusion_commands y b) = Inr cmds
           \<and> one_command b (map (\<lambda>r. the (r_file r)) rs) m \<in> set cmds"
proof -
  have rf: "run_files_of y = Inr (map (\<lambda>r. the (r_file r)) rs)"
    using assms(2,3) by (simp add: run_files_of_cases)
  have "name_in supported_methods m" using assms(5,6) by (auto simp: name_in_supported)
  with assms(4) have in_f: "m \<in> set (filter (name_in supported_methods) ms)" by simp
  then have "filter (name_in supported_methods) ms \<noteq> []" by (auto simp: filter_empty_conv)
  then have "snd (construct_fusion_commands y b) =
      Inr (map (one_command b (map (\<lambda>r. the (r_file r)) rs)) (filter (name_in supported_methods) ms))"
    using assms(1) rf by (simp add: construct_cases)
  moreover have "one_command b (map (\<lambda>r. the (r_file r)) rs) m
      \<in> set (map (one_command b (map (\<lambda>r. the (r_file r)) rs)) (filter (name_in supported_methods) ms))"
    using in_f by (simp only: set_map) (rule imageI)
  ultimately show ?thesis by blast
qed

lemma py_index_mem: "py_index xs i = Inr x \<Longrightarrow> x \<in> set xs"
  by (auto simp: py_index_def split: if_splits)

lemma last_line_nonblank:
  assumes "last_line output = Inr out"
  shows "py_strip out \<noteq> []"
proof (cases "output")
  case None
  with assms show ?thesis by (simp add: last_line_def)
next
  case (Some body)
  with assms have "out \<in> set (filter (\<lambda>line. py_strip line \<noteq> []) (split_on [CHR 0x0A] [] body))"
    by (auto simp: last_line_def dest: py_index_mem)
  then show ?thesis by simp
qed

lemma passes_iff: "passes expected actual \<longleftrightarrow> is_close expected actual (1 / 10 ^ 9) 0 \<or> expected < actual"
  by (simp add: passes_def is_close_default_def rel_tol_default_def abs_tol_default_def)

lemma verify_triple_verdict:
  assumes "eval_cmd m topic metric = Inr cmd"
    and "sys_popen ev (trace st @ [Spawn (join '' '' cmd)]) (join '' '' cmd) = Inr (0, output)"
    and "last_line output = Inr out"
    and "parse_scores ev m i metric out = Inr (expected, actual)"
    and "result_names m topic metric = Inr (metric_name, method_name, topic_id)"
  shows "verify_triple ev False m i topic metric st =
           (if is_close expected actual (1 / 10 ^ 9) 0 \<or> expected < actual
            then Done (st\<lparr>trace := trace st @
                         [Spawn (join '' '' cmd),
                          Log INFO (Verdict True expected actual metric_name method_name topic_id)],
                       results := record_result method_name metric_name actual (results st)\<rparr>)
            else Done (st\<lparr>trace := trace st @
                         [Spawn (join '' '' cmd),
                          Log ERROR (Verdict False expected actual metric_name method_name topic_id)],
                       failures := True,
                       results := record_result method_name metric_name actual (results st)\<rparr>))"
  using assms last_line_nonblank [OF assms(3)]
  by (simp add: verify_triple_def check_output_def passes_iff)


subsection \<open>Relations kept by the loops\<close>

lemma metrics_loop_rel:
  assumes "\<And>s. Q s s" and "\<And>a b c. Q a b \<Longrightarrow> Q b c \<Longrightarrow> Q a c"
    and "\<And>metric s. Q s (final_state (verify_triple ev d m i topic metric s))"
  shows "Q st (final_state (metrics_loop ev d m i topic metrics st))"
proof (induction metrics arbitrary: st)
  case Nil
  show ?case using assms(1) by simp
next
  case (Cons metric metrics)
  show ?case
  proof (cases "verify_triple ev d m i topic metric st")
    case (Done st')
    have "Q st st'" using assms(3) [of st metric] Done by simp
    then show ?thesis using Cons [of st'] Done assms(2) by simp
  next
    case (Raised e st')
    then show ?thesis using assms(3) [of st metric] by simp
  qed
qed

lemma topics_loop_rel:
  assumes "\<And>s. Q s s" and "\<And>a b c. Q a b \<Longrightarrow> Q b c \<Longrightarrow> Q a c"
    and "\<And>i topic metric s. Q s (final_state (verify_triple ev d m i topic metric s))"
  shows "Q st (final_state (topics_loop ev d y m i topics st))"
proof (induction topics arbitrary: st i)
  case Nil
  show ?case using assms(1) by simp
next
  case (Cons topic topics)
  show ?case
  proof (cases "y_metrics y")
    case None
    then show ?thesis using assms(1) by (simp add: subscript_def)
  next
    case (Some metrics)
    have step: "Q st (final_state (metrics_loop ev d m i topic metrics st))"
    proof (rule metrics_loop_rel [where Q = Q])
      show "\<And>s. Q s s" by (rule assms(1))
      show "\<And>a b c. Q a b \<Longrightarrow> Q b c \<Longrightarrow> Q a c" by (rule assms(2))
      show "\<And>metric s. Q s (final_state (verify_triple ev d m i topic metric s))"
        by (rule assms(3))
    qed
    show ?thesis
    proof (cases "metrics_loop ev d m i topic metrics st")
      case (Done st')
      then show ?thesis using step Cons [of st' "Suc i"] Some assms(2) by (simp add: subscript_def)
    next
      case (Raised e st')
      then show ?thesis using step Some by (simp add: subscript_def)
    qed
  qed
qed

lemma methods_loop_rel:
  assumes "\<And>s. Q s s" and "\<And>a b c. Q a b \<Longrightarrow> Q b c \<Longrightarrow> Q a c"
    and "\<And>m i topic metric s. Q s (final_state (verify_triple ev d m i topic metric s))"
  shows "Q st (final_state (methods_loop ev d y ms st))"
proof (induction ms arbitrary: st)
  case Nil
  show ?case using assms(1) by simp
next
  case (Cons m ms)
  show ?case
  proof (cases "y_topics y")
    case None
    then show ?thesis using assms(1) by (simp add: subscript_def)
  next
    case (Some topics)
    have step: "Q st (final_state (topics_loop ev d y m 0 topics st))"
    proof (rule topics_loop_rel [where Q = Q])
      show "\<And>s. Q s s" by (rule assms(1))
      show "\<And>a b c. Q a b \<Longrightarrow> Q b c \<Longrightarrow> Q a c" by (rule assms(2))
      show "\<And>i topic metric s. Q s (final_state (verify_triple ev d m i topic metric s))"
        by (rule assms(3))
    qed
    show ?thesis
    proof (cases "topics_loop ev d y m 0 topics st")
      case (Done st')
      then show ?thesis using step Cons [of st'] Some assms(2) by (simp add: subscript_def)
    next
      case (Raised e st')
      then show ?thesis using step Some by (simp add: subscript_def)
    qed
  qed
qed

text \<open>What one triple adds to the trace, in every case of the body.\<close>

lemma verify_triple_cases:
  obtains
    (raise_cmd) e where "eval_cmd m topic metric = Inl e"
      "verify_triple ev d m i topic metric st = Raised e st"
  | (dry) cmd where "eval_cmd m topic metric = Inr cmd" "d"
      "verify_triple ev d m i topic metric st =
         Done (st\<lparr>trace := trace st @ [Log INFO (Rendered (join '' '' cmd))]\<rparr>)"
  | (skip) cmd e where "eval_cmd m topic metric = Inr cmd" "\<not> d"
      "verify_triple ev d m i topic metric st =
         Done (st\<lparr>trace := trace st @ [Spawn (join '' '' cmd), Log ERROR (EvalFailed e)]\<rparr>)"
  | (raise_parse) cmd e where "eval_cmd m topic metric = Inr cmd" "\<not> d"
      "verify_triple ev d m i topic metric st =
         Raised e (st\<lparr>trace := trace st @ [Spawn (join '' '' cmd)]\<rparr>)"
  | (verdict) cmd expected actual metric_name method_name topic_id
      where "eval_cmd m topic metric = Inr cmd" "\<not> d"
      "verify_triple ev d m i topic metric st =
         Done (st\<lparr>trace := trace st @
                 [Spawn (join '' '' cmd),
                  Log (if passes expected actual then INFO else ERROR)
                    (Verdict (passes expected actual) expected actual metric_name method_name
                       topic_id)],
               failures := failures st \<or> \<not> passes expected actual,
               results := record_result method_name metric_name actual (results st)\<rparr>)"
proof (cases "eval_cmd m topic metric")
  case (Inl e)
  then show ?thesis using raise_cmd by (simp add: verify_triple_def)
next
  case (Inr cmd)
  note cmd = this
  show ?thesis
  proof (cases d)
    case True
    then show ?thesis using dry cmd by (simp add: verify_triple_def)
  next
    case False
    let ?c = "join '' '' cmd"
    let ?st1 = "st\<lparr>trace := trace st @ [Spawn ?c]\<rparr>"
    let ?r = "case snd (check_output ev (trace st) ?c) of Inl e \<Rightarrow> Inl e | Inr x \<Rightarrow> last_line x"
    have unfold: "verify_triple ev d m i topic metric st =
      (case ?r of
         Inl e \<Rightarrow> Done (?st1\<lparr>trace := trace ?st1 @ [Log ERROR (EvalFailed e)]\<rparr>)
       | Inr out \<Rightarrow>
           if py_strip out = [] then Done ?st1
           else (case parse_scores ev m i metric out of
                   Inl e \<Rightarrow> Raised e ?st1
                 | Inr (expected, actual) \<Rightarrow>
                     (case result_names m topic metric of
                        Inl e \<Rightarrow> Raised e ?st1
                      | Inr (metric_name, method_name, topic_id) \<Rightarrow>
                          if passes expected actual then
                            Done (?st1\<lparr>trace := trace ?st1 @
                                    [Log INFO (Verdict True expected actual
                                       metric_name method_name topic_id)],
                                  results := record_result method_name metric_name actual
                                               (results ?st1)\<rparr>)
                          else
                            Done (?st1\<lparr>trace := trace ?st1 @
                                    [Log ERROR (Verdict False expected actual
                                       metric_name method_name topic_id)],
                                  failures := True,
                                  results := record_result method_name metric_name actual
                                               (results ?st1)\<rparr>))))"
      using False cmd by (simp add: verify_triple_def check_output_def Let_def)
    show ?thesis
    proof (cases ?r)
      case (Inl e)
      then show ?thesis using skip [where cmd = cmd and e = e] cmd False unfold by simp
    next
      case (Inr out)
      note out = this
      have nb: "py_strip out \<noteq> []"
      proof (cases "snd (check_output ev (trace st) ?c)")
        case (Inl e)
        with out show ?thesis by simp
      next
        case (Inr x)
        with out show ?thesis using last_line_nonblank by simp
      qed
      show ?thesis
      proof (cases "parse_scores ev m i metric out")
        case (Inl e)
        then show ?thesis using raise_parse [where cmd = cmd and e = e] cmd False unfold out nb by simp
      next
        case (Inr p)
        obtain expected actual where p: "p = (expected, actual)" by (cases p)
        show ?thesis
        proof (cases "result_names m topic metric")
          case (Inl e)
          then show ?thesis using raise_parse [where cmd = cmd and e = e] cmd False unfold out nb Inr p by simp
        next
          case (Inr q)
          obtain metric_name method_name topic_id where q: "q = (metric_name, method_name, topic_id)"
            by (cases q)
          show ?thesis
            using verdict [where cmd = cmd and expected = expected and actual = actual and metric_name = metric_name and method_name = method_name and topic_id = topic_id]
              cmd False unfold out nb \<open>parse_scores ev m i metric out = Inr p\<close> p Inr q
            by (cases "passes expected actual") simp_all
        qed
      qed
    qed
  qed
qed


lemma verdicts_step_refl: "verdicts_step s s"
  by (simp add: verdicts_step_def)

lemma verdicts_step_trans:
  assumes "verdicts_step a b" and "verdicts_step b c"
  shows "verdicts_step a c"
proof -
  from assms(1) obtain e1 where 1: "trace b = trace a @ e1"
    "failures b = (failures a \<or> list_ex is_fail e1)" "list_all verdict_ok e1"
    "\<not> list_ex is_summary e1"
    by (auto simp: verdicts_step_def)
  from assms(2) obtain e2 where 2: "trace c = trace b @ e2"
    "failures c = (failures b \<or> list_ex is_fail e2)" "list_all verdict_ok e2"
    "\<not> list_ex is_summary e2"
    by (auto simp: verdicts_step_def)
  have "trace c = trace a @ (e1 @ e2)" "failures c = (failures a \<or> list_ex is_fail (e1 @ e2))"
    "list_all verdict_ok (e1 @ e2)" "\<not> list_ex is_summary (e1 @ e2)"
    using 1 2 by auto
  then show ?thesis unfolding verdicts_step_def by blast
qed

lemma verify_triple_verdicts:
  "verdicts_step s (final_state (verify_triple ev d m i topic metric s))"
proof (cases rule: verify_triple_cases [of m topic metric ev d i s])
  case (raise_cmd e)
  then show ?thesis by (simp add: verdicts_step_def)
next
  case (dry cmd)
  then show ?thesis by (simp add: verdicts_step_def)
next
  case (skip cmd e)
  then show ?thesis by (simp add: verdicts_step_def)
next
  case (raise_parse cmd e)
  then show ?thesis by (simp add: verdicts_step_def)
next
  case (verdict cmd expected actual metric_name method_name topic_id)
  then show ?thesis by (simp add: verdicts_step_def passes_iff)
qed

lemma evaluate_and_verify_summary:
  assumes "evaluate_and_verify ev y d tr0 = Done tr"
  shows "\<exists>evs. tr = tr0 @ Log INFO VerifyBanner # evs @
                 [Log INFO ExecutionTime,
                  if list_ex is_fail evs then Log ERROR SomeFailed else Log INFO AllPassed]
               \<and> list_all verdict_ok evs \<and> \<not> list_ex is_summary evs"
proof (cases "y_methods y")
  case None
  with assms show ?thesis by (simp add: evaluate_and_verify_def subscript_def)
next
  case (Some ms)
  let ?st0 = "\<lparr>trace = tr0 @ [Log INFO VerifyBanner], failures = False, results = Map.empty\<rparr>"
  let ?r = "methods_loop ev d y (filter (name_in eval_supported_methods) ms) ?st0"
  have rel: "verdicts_step ?st0 (final_state ?r)"
  proof (rule methods_loop_rel [where Q = verdicts_step])
    show "\<And>s. verdicts_step s s" by (rule verdicts_step_refl)
    show "\<And>a b c. verdicts_step a b \<Longrightarrow> verdicts_step b c \<Longrightarrow> verdicts_step a c"
      by (rule verdicts_step_trans)
    show "\<And>m i topic metric s. verdicts_step s (final_state (verify_triple ev d m i topic metric s))"
      by (rule verify_triple_verdicts)
  qed
  show ?thesis
  proof (cases ?r)
    case (Raised e st)
    with assms Some show ?thesis by (simp add: evaluate_and_verify_def subscript_def)
  next
    case (Done st)
    with rel obtain evs where evs: "trace st = tr0 @ [Log INFO VerifyBanner] @ evs"
      "failures st = list_ex is_fail evs" "list_all verdict_ok evs" "\<not> list_ex is_summary evs"
      by (auto simp: verdicts_step_def)
    from assms Some Done
    have "tr = trace st @ [Log INFO ExecutionTime,
                 if failures st then Log ERROR SomeFailed else Log INFO AllPassed]"
      by (simp add: evaluate_and_verify_def subscript_def)
    with evs show ?thesis by simp
  qed
qed

lemma blank_lines_index:
  assumes "list_all (\<lambda>line. py_strip line = []) ls"
  shows "py_index (filter (\<lambda>line. py_strip line \<noteq> []) ls) (- 1) = Inl IndexError"
proof -
  have "filter (\<lambda>line. py_strip line \<noteq> []) ls = []"
    using assms by (simp add: list_all_iff)
  then show ?thesis by (simp add: py_index_def)
qed

lemma no_spawn_step_refl: "no_spawn_step s s"
  by (simp add: no_spawn_step_def)

lemma no_spawn_step_trans:
  assumes "no_spawn_step a b" and "no_spawn_step b c"
  shows "no_spawn_step a c"
proof -
  from assms(1) obtain e1 where 1: "trace b = trace a @ e1" "\<not> list_ex is_spawn e1"
    by (auto simp: no_spawn_step_def)
  from assms(2) obtain e2 where 2: "trace c = trace b @ e2" "\<not> list_ex is_spawn e2"
    by (auto simp: no_spawn_step_def)
  have "trace c = trace a @ (e1 @ e2)" "\<not> list_ex is_spawn (e1 @ e2)"
    using 1 2 by auto
  then show ?thesis unfolding no_spawn_step_def by blast
qed

lemma verify_triple_dry:
  "no_spawn_step s (final_state (verify_triple ev True m i topic metric s))"
proof (cases rule: verify_triple_cases [of m topic metric ev True i s])
  case (raise_cmd e)
  then show ?thesis by (simp add: no_spawn_step_def)
next
  case (dry cmd)
  then show ?thesis by (simp add: no_spawn_step_def)
qed simp_all

lemma evaluate_and_verify_dry:
  "\<exists>evs. final_state (evaluate_and_verify ev y True tr0) = tr0 @ evs \<and> \<not> list_ex is_spawn evs"
proof (cases "y_methods y")
  case None
  then show ?thesis by (simp add: evaluate_and_verify_def subscript_def)
next
  case (Some ms)
  let ?st0 = "\<lparr>trace = tr0 @ [Log INFO VerifyBanner], failures = False, results = Map.empty\<rparr>"
  let ?r = "methods_loop ev True y (filter (name_in eval_supported_methods) ms) ?st0"
  have rel: "no_spawn_step ?st0 (final_state ?r)"
  proof (rule methods_loop_rel [where Q = no_spawn_step])
    show "\<And>s. no_spawn_step s s" by (rule no_spawn_step_refl)
    show "\<And>a b c. no_spawn_step a b \<Longrightarrow> no_spawn_step b c \<Longrightarrow> no_spawn_step a c"
      by (rule no_spawn_step_trans)
    show "\<And>m i topic metric s. no_spawn_step s (final_state (verify_triple ev True m i topic metric s))"
      by (rule verify_triple_dry)
  qed
  then obtain evs where evs: "trace (final_state ?r) = tr0 @ [Log INFO VerifyBanner] @ evs"
      "\<not> list_ex is_spawn evs"
    by (auto simp: no_spawn_step_def)
  show ?thesis
  proof (cases ?r)
    case (Raised e st)
    with evs Some have "final_state (evaluate_and_verify ev y True tr0) = tr0 @ (Log INFO VerifyBanner # evs)"
      by (simp add: evaluate_and_verify_def subscript_def)
    moreover have "\<not> list_ex is_spawn (Log INFO VerifyBanner # evs)" using evs(2) by simp
    ultimately show ?thesis by blast
  next
    case (Done st)
    with evs Some have "final_state (evaluate_and_verify ev y True tr0) =
        tr0 @ (Log INFO VerifyBanner # evs @ [Log INFO ExecutionTime,
                 if failures st then Log ERROR SomeFailed else Log INFO AllPassed])"
      by (simp add: evaluate_and_verify_def subscript_def)
    moreover have "\<not> list_ex is_spawn (Log INFO VerifyBanner # evs @ [Log INFO ExecutionTime,
                 if failures st then Log ERROR SomeFailed else Log INFO AllPassed])"
      using evs(2) by simp
    ultimately show ?thesis by blast
  qed
qed

lemma construct_no_spawn': "\<not> list_ex is_spawn (fst (construct_fusion_commands y b))"
  using construct_no_spawn [of y b] by (simp add: list_ex_iff)

lemma run_regression_dry:
  assumes "a_dry_run a"
  shows "\<not> list_ex is_spawn (snd (run_regression ev a y))"
proof -
  obtain evs r where c: "construct_fusion_commands y (a_use_pyserini a) = (evs, r)"
    by (cases "construct_fusion_commands y (a_use_pyserini a)")
  have ns: "\<not> list_ex is_spawn evs" using construct_no_spawn' [of y "a_use_pyserini a"] c by simp
  let ?tr1 = "[Log INFO (UsingImplementation (if a_use_pyserini a then ''Pyserini'' else ''Anserini''))] @ evs"
  have ns1: "\<not> list_ex is_spawn ?tr1" using ns by simp
  show ?thesis
  proof (cases r)
    case (Inl e)
    then show ?thesis using c ns by (simp add: run_regression_def)
  next
    case (Inr cmds)
    show ?thesis
    proof (cases "join_tokens '' '' (concat cmds)")
      case (Inl e)
      then show ?thesis using c ns Inr assms by (simp add: run_regression_def fusion_phase_def)
    next
      case (Inr line)
      let ?tr2 = "?tr1 @ [Log INFO (Rendered line)]"
      have ns2: "\<not> list_ex is_spawn ?tr2" using ns by simp
      obtain evs' where e: "final_state (evaluate_and_verify ev y True ?tr2) = ?tr2 @ evs'"
        "\<not> list_ex is_spawn evs'"
        using evaluate_and_verify_dry [of ev y ?tr2] by blast
      have "\<not> list_ex is_spawn (final_state (evaluate_and_verify ev y True ?tr2))"
        using e ns by simp
      then show ?thesis
        using c \<open>r = Inr cmds\<close> Inr assms
        by (cases "evaluate_and_verify ev y True ?tr2")
           (simp_all add: run_regression_def fusion_phase_def)
    qed
  qed
qed

lemma main_cases:
  "main ev a =
     (case open_yaml ev (config_path (a_regression a)) of
        Inl e \<Rightarrow> if e = FileNotFoundError then (Exit 1, [Log ERROR ConfigMissing]) else (Uncaught e, [])
      | Inr y \<Rightarrow>
          (case y_runs y of
             None \<Rightarrow> (Uncaught (KeyError ''runs''), [])
           | Some rs \<Rightarrow>
               (case check_run_files ev rs of
                  Inl e \<Rightarrow> (Uncaught e, [])
                | Inr (Some f) \<Rightarrow> (Exit 1, [Log ERROR (RunFileMissing f)])
                | Inr None \<Rightarrow> run_regression ev a y)))"
  by (simp add: main_def subscript_def split: sum.splits option.splits)

lemma main_dry:
  assumes "a_dry_run a"
  shows "\<not> list_ex is_spawn (snd (main ev a))"
  using run_regression_dry [OF assms]
  by (simp add: main_cases split: sum.splits option.splits)

lemma contains_prefix: "contains sub (sub @ post)"
proof (cases "sub @ post")
  case Nil
  then show ?thesis by simp
next
  case (Cons c cs)
  have "take (length sub) (sub @ post) = sub" by simp
  then have "take (length sub) (c # cs) = sub" using Cons by simp
  then show ?thesis using Cons by (simp del: take_Suc_Cons take_Cons')
qed

lemma contains_append: "contains sub (pre @ sub @ post)"
proof (induction pre)
  case Nil
  show ?case using contains_prefix [of sub post] by simp
next
  case (Cons c pre)
  then show ?case by simp
qed

lemma has_args_decomp:
  "has_args flag vals ts \<Longrightarrow> \<exists>pre post. ts = pre @ flag # vals @ post"
proof (induction ts)
  case Nil
  then show ?case by simp
next
  case (Cons t ts)
  show ?case
  proof (cases "t = flag \<and> take (length vals) ts = vals")
    case True
    then have "t # ts = [] @ flag # vals @ drop (length vals) ts"
      by (metis append_Nil append_take_drop_id)
    then show ?thesis by blast
  next
    case False
    with Cons obtain pre post where "ts = pre @ flag # vals @ post" by auto
    then have "t # ts = (t # pre) @ flag # vals @ post" by simp
    then show ?thesis by blast
  qed
qed

lemma has_args_concat:
  assumes "has_args flag vals cmd" and "cmd \<in> set cmds"
  shows "has_args flag vals (concat cmds)"
proof -
  from assms(2) obtain c1 c2 where c: "cmds = c1 @ cmd # c2" by (auto dest: split_list)
  from has_args_decomp [OF assms(1)] obtain pre post where p: "cmd = pre @ flag # vals @ post"
    by blast
  have "concat cmds = (concat c1 @ pre) @ flag # vals @ (post @ concat c2)"
    using c p by simp
  then show ?thesis using has_args_append [of flag vals "concat c1 @ pre" "post @ concat c2"]
    by simp
qed

lemma join_Cons: "join sep (x # xs) = (if xs = [] then x else x @ sep @ join sep xs)"
  by (cases xs) simp_all

lemma join_decomp: "\<exists>P S. join sep (pre @ a # b # post) = P @ (a @ sep @ b) @ S"
proof (induction pre)
  case Nil
  have "join sep (a # b # post) = [] @ (a @ sep @ b) @ (if post = [] then [] else sep @ join sep post)"
    by (simp add: join_Cons)
  then show ?case by (metis append_Nil)
next
  case (Cons x pre)
  then obtain P S where "join sep (pre @ a # b # post) = P @ (a @ sep @ b) @ S" by blast
  then have "join sep ((x # pre) @ a # b # post) = (x @ sep @ P) @ (a @ sep @ b) @ S"
    by (simp add: join_Cons)
  then show ?case by blast
qed

lemma join_contains:
  assumes "has_args (Some a) [Some b] ts"
  shows "contains (a @ sep @ b) (join sep (map the ts))"
proof -
  from has_args_decomp [OF assms] obtain pre post where "ts = pre @ Some a # [Some b] @ post"
    by blast
  then have "map the ts = map the pre @ a # b # map the post" by simp
  then obtain P S where "join sep (map the ts) = P @ (a @ sep @ b) @ S"
    using join_decomp [of sep "map the pre" a b "map the post"] by auto
  then show ?thesis using contains_append [of "a @ sep @ b" P S] by simp
qed

lemma pyserini_no_none:
  "m_output m \<noteq> None \<Longrightarrow> None \<notin> set (snd (pyserini_command fs m))"
  by (auto simp: pyserini_shape)

lemma check_run_files_ok:
  "list_all (\<lambda>r. \<exists>f. r_file r = Some f \<and> path_exists ev f) rs \<Longrightarrow> check_run_files ev rs = Inr None"
  by (induction rs) (auto simp: subscript_def)

lemma files_present:
  "list_all (\<lambda>r. \<exists>f. r_file r = Some f \<and> path_exists ev f) rs \<Longrightarrow> \<forall>r\<in>set rs. r_file r \<noteq> None"
  by (auto simp: list_all_iff)

lemma evaluate_and_verify_extends:
  "\<exists>evs. final_state (evaluate_and_verify ev y d tr0) = tr0 @ evs"
proof (cases "y_methods y")
  case None
  then show ?thesis by (simp add: evaluate_and_verify_def subscript_def)
next
  case (Some ms)
  let ?st0 = "\<lparr>trace = tr0 @ [Log INFO VerifyBanner], failures = False, results = Map.empty\<rparr>"
  let ?r = "methods_loop ev d y (filter (name_in eval_supported_methods) ms) ?st0"
  have rel: "verdicts_step ?st0 (final_state ?r)"
  proof (rule methods_loop_rel [where Q = verdicts_step])
    show "\<And>s. verdicts_step s s" by (rule verdicts_step_refl)
    show "\<And>a b c. verdicts_step a b \<Longrightarrow> verdicts_step b c \<Longrightarrow> verdicts_step a c"
      by (rule verdicts_step_trans)
    show "\<And>m i topic metric s. verdicts_step s (final_state (verify_triple ev d m i topic metric s))"
      by (rule verify_triple_verdicts)
  qed
  then obtain evs where evs: "trace (final_state ?r) = tr0 @ [Log INFO VerifyBanner] @ evs"
    by (auto simp: verdicts_step_def)
  show ?thesis
    using evs Some by (cases ?r) (simp_all add: evaluate_and_verify_def subscript_def)
qed

lemma run_regression_trace:
  assumes "construct_fusion_commands y (a_use_pyserini a) = (evs, Inr cmds)"
    and "fusion_phase ev a cmds
           (Log INFO (UsingImplementation (if a_use_pyserini a then ''Pyserini'' else ''Anserini'')) # evs)
         = Done tr2"
  shows "\<exists>evs'. snd (run_regression ev a y) = tr2 @ evs'"
proof -
  obtain evs' where e: "final_state (evaluate_and_verify ev y (a_dry_run a) tr2) = tr2 @ evs'"
    using evaluate_and_verify_extends by blast
  show ?thesis
    using assms e
    by (cases "evaluate_and_verify ev y (a_dry_run a) tr2") (simp_all add: run_regression_def)
qed

lemma py_str_07: "py_str (PFloat 7 (- 1)) = ''0.7''"
  by code_simp


lemma rendered_alpha:
  assumes "a_dry_run a" and "a_use_pyserini a"
    and "open_yaml ev (config_path (a_regression a)) = Inr y"
    and "y_methods y = Some ms" and "y_runs y = Some rs"
    and "list_all (\<lambda>r. \<exists>f. r_file r = Some f \<and> path_exists ev f) rs"
    and "list_all (\<lambda>m. m_output m \<noteq> None) ms"
    and "m \<in> set ms" and "m_name m = Some ''interpolation''"
    and "m_alpha m = Some (PFloat 7 (- 1))"
  shows "\<exists>line. Log INFO (Rendered line) \<in> set (snd (main ev a)) \<and> contains ''--alpha 0.7'' line"
proof -
  let ?fs = "map (\<lambda>r. the (r_file r)) rs"
  let ?fm = "filter (name_in supported_methods) ms"
  let ?cmds = "map (one_command True ?fs) ?fm"
  have main: "main ev a = run_regression ev a y"
    using assms(3,5) check_run_files_ok [OF assms(6)] by (simp add: main_cases)
  have rf: "run_files_of y = Inr ?fs"
    using assms(5) files_present [OF assms(6)] by (simp add: run_files_of_cases)
  have "snd (construct_fusion_commands y True) = Inr ?cmds"
    using assms(4) rf by (simp add: construct_cases)
  then obtain evs where c: "construct_fusion_commands y (a_use_pyserini a) = (evs, Inr ?cmds)"
    using assms(2) by (cases "construct_fusion_commands y True") simp
  have in_fm: "m \<in> set ?fm" using assms(8,9) by (simp add: name_in_supported)
  have none: "None \<notin> set (concat ?cmds)"
  proof
    assume "None \<in> set (concat ?cmds)"
    then obtain m' where m': "m' \<in> set ms" "None \<in> set (one_command True ?fs m')" by auto
    from m'(1) assms(7) have "m_output m' \<noteq> None" by (simp add: list_all_iff)
    from pyserini_no_none [OF this, of ?fs] m'(2) show False by (simp add: one_command_def)
  qed
  let ?line = "join '' '' (map the (concat ?cmds))"
  let ?tr1 = "Log INFO (UsingImplementation (if a_use_pyserini a then ''Pyserini'' else ''Anserini'')) # evs"
  have "fusion_phase ev a ?cmds ?tr1 = Done (?tr1 @ [Log INFO (Rendered ?line)])"
    using assms(1) none by (simp add: fusion_phase_def join_tokens_def)
  from run_regression_trace [OF c this] obtain evs' where
    "snd (run_regression ev a y) = (?tr1 @ [Log INFO (Rendered ?line)]) @ evs'" by blast
  then have logged: "Log INFO (Rendered ?line) \<in> set (snd (main ev a))" using main by simp
  have "get_default (m_name m) ''average'' = ''interpolation''"
    using assms(9) by (simp add: get_default_def)
  from pyserini_has_alpha [OF this, of ?fs]
  have "has_args (Some ''--alpha'') [Some ''0.7''] (one_command True ?fs m)"
    using assms(10) by (simp add: one_command_def get_default_def py_str_07 del: py_str.simps)
  moreover have "one_command True ?fs m \<in> set ?cmds" using in_fm by (simp only: set_map) (rule imageI)
  ultimately have "has_args (Some ''--alpha'') [Some ''0.7''] (concat ?cmds)"
    by (rule has_args_concat)
  from join_contains [OF this, of "'' ''"] have "contains ''--alpha 0.7'' ?line" by simp
  with logged show ?thesis by blast
qed

lemma verify_triple_extends:
  "\<exists>evs. trace (final_state (verify_triple ev d m i topic metric st)) = trace st @ evs"
  using verify_triple_verdicts [of st ev d m i topic metric] by (auto simp: verdicts_step_def)

lemma metrics_loop_extends:
  "\<exists>evs. trace (final_state (metrics_loop ev d m i topic metrics st)) = trace st @ evs"
proof -
  have "verdicts_step st (final_state (metrics_loop ev d m i topic metrics st))"
  proof (rule metrics_loop_rel [where Q = verdicts_step])
    show "\<And>s. verdicts_step s s" by (rule verdicts_step_refl)
    show "\<And>a b c. verdicts_step a b \<Longrightarrow> verdicts_step b c \<Longrightarrow> verdicts_step a c"
      by (rule verdicts_step_trans)
    show "\<And>metric s. verdicts_step s (final_state (verify_triple ev d m i topic metric s))"
      by (rule verify_triple_verdicts)
  qed
  then show ?thesis by (auto simp: verdicts_step_def)
qed

lemma topics_loop_extends:
  "\<exists>evs. trace (final_state (topics_loop ev d y m i topics st)) = trace st @ evs"
proof -
  have "verdicts_step st (final_state (topics_loop ev d y m i topics st))"
  proof (rule topics_loop_rel [where Q = verdicts_step])
    show "\<And>s. verdicts_step s s" by (rule verdicts_step_refl)
    show "\<And>a b c. verdicts_step a b \<Longrightarrow> verdicts_step b c \<Longrightarrow> verdicts_step a c"
      by (rule verdicts_step_trans)
    show "\<And>i topic metric s. verdicts_step s (final_state (verify_triple ev d m i topic metric s))"
      by (rule verify_triple_verdicts)
  qed
  then show ?thesis by (auto simp: verdicts_step_def)
qed

lemma methods_loop_extends:
  "\<exists>evs. trace (final_state (methods_loop ev d y ms st)) = trace st @ evs"
proof -
  have "verdicts_step st (final_state (methods_loop ev d y ms st))"
  proof (rule methods_loop_rel [where Q = verdicts_step])
    show "\<And>s. verdicts_step s s" by (rule verdicts_step_refl)
    show "\<And>a b c. verdicts_step a b \<Longrightarrow> verdicts_step b c \<Longrightarrow> verdicts_step a c"
      by (rule verdicts_step_trans)
    show "\<And>m i topic metric s. verdicts_step s (final_state (verify_triple ev d m i topic metric s))"
      by (rule verify_triple_verdicts)
  qed
  then show ?thesis by (auto simp: verdicts_step_def)
qed

lemma verify_triple_done_event:
  assumes "verify_triple ev d m i topic metric st = Done st'"
  shows "\<exists>cmd. eval_cmd m topic metric = Inr cmd \<and> triple_event d cmd \<in> set (trace st')"
proof (cases rule: verify_triple_cases [of m topic metric ev d i st])
  case (raise_cmd e)
  with assms show ?thesis by simp
next
  case (dry cmd)
  with assms show ?thesis by (auto simp: triple_event_def)
next
  case (skip cmd e)
  with assms show ?thesis by (auto simp: triple_event_def)
next
  case (raise_parse cmd e)
  with assms show ?thesis by simp
next
  case (verdict cmd expected actual metric_name method_name topic_id)
  with assms show ?thesis by (auto simp: triple_event_def)
qed

lemma metrics_loop_done_events:
  assumes "metrics_loop ev d m i topic metrics st = Done st'" and "metric \<in> set metrics"
  shows "\<exists>cmd. eval_cmd m topic metric = Inr cmd \<and> triple_event d cmd \<in> set (trace st')"
  using assms
proof (induction metrics arbitrary: st)
  case Nil
  then show ?case by simp
next
  case (Cons x xs)
  from Cons.prems(1) obtain st1 where 1: "verify_triple ev d m i topic x st = Done st1"
    and 2: "metrics_loop ev d m i topic xs st1 = Done st'"
    by (cases "verify_triple ev d m i topic x st") simp_all
  show ?case
  proof (cases "metric = x")
    case True
    from verify_triple_done_event [OF 1] obtain cmd where
      c: "eval_cmd m topic x = Inr cmd" "triple_event d cmd \<in> set (trace st1)" by blast
    from metrics_loop_extends [of ev d m i topic xs st1] 2 obtain evs where
      "trace st' = trace st1 @ evs" by auto
    with c True show ?thesis by auto
  next
    case False
    with Cons.prems(2) have "metric \<in> set xs" by simp
    from Cons.IH [OF 2 this] show ?thesis .
  qed
qed

lemma topics_loop_done_events:
  assumes "topics_loop ev d y m i topics st = Done st'" and "topic \<in> set topics"
    and "y_metrics y = Some metrics" and "metric \<in> set metrics"
  shows "\<exists>cmd. eval_cmd m topic metric = Inr cmd \<and> triple_event d cmd \<in> set (trace st')"
  using assms(1,2)
proof (induction topics arbitrary: st i)
  case Nil
  then show ?case by simp
next
  case (Cons x xs)
  from Cons.prems(1) assms(3) obtain st1 where 1: "metrics_loop ev d m i x metrics st = Done st1"
    and 2: "topics_loop ev d y m (Suc i) xs st1 = Done st'"
    by (cases "metrics_loop ev d m i x metrics st") (simp_all add: subscript_def)
  show ?case
  proof (cases "topic = x")
    case True
    from metrics_loop_done_events [OF 1 assms(4)] obtain cmd where
      c: "eval_cmd m x metric = Inr cmd" "triple_event d cmd \<in> set (trace st1)" by blast
    from topics_loop_extends [of ev d y m "Suc i" xs st1] 2 obtain evs where
      "trace st' = trace st1 @ evs" by auto
    with c True show ?thesis by auto
  next
    case False
    with Cons.prems(2) have "topic \<in> set xs" by simp
    from Cons.IH [OF 2 this] show ?thesis .
  qed
qed

lemma methods_loop_done_events:
  assumes "methods_loop ev d y ms st = Done st'" and "m \<in> set ms"
    and "y_topics y = Some topics" and "topic \<in> set topics"
    and "y_metrics y = Some metrics" and "metric \<in> set metrics"
  shows "\<exists>cmd. eval_cmd m topic metric = Inr cmd \<and> triple_event d cmd \<in> set (trace st')"
  using assms(1,2)
proof (induction ms arbitrary: st)
  case Nil
  then show ?case by simp
next
  case (Cons x xs)
  from Cons.prems(1) assms(3) obtain st1 where 1: "topics_loop ev d y x 0 topics st = Done st1"
    and 2: "methods_loop ev d y xs st1 = Done st'"
    by (cases "topics_loop ev d y x 0 topics st") (simp_all add: subscript_def)
  show ?case
  proof (cases "m = x")
    case True
    from topics_loop_done_events [OF 1 assms(4,5,6)] obtain cmd where
      c: "eval_cmd x topic metric = Inr cmd" "triple_event d cmd \<in> set (trace st1)" by blast
    from methods_loop_extends [of ev d y xs st1] 2 obtain evs where
      "trace st' = trace st1 @ evs" by auto
    with c True show ?thesis by auto
  next
    case False
    with Cons.prems(2) have "m \<in> set xs" by simp
    from Cons.IH [OF 2 this] show ?thesis .
  qed
qed

lemma evaluate_and_verify_done_events:
  assumes "evaluate_and_verify ev y d tr0 = Done tr"
    and "y_methods y = Some ms" and "m \<in> set ms" and "name_in eval_supported_methods m"
    and "y_topics y = Some topics" and "topic \<in> set topics"
    and "y_metrics y = Some metrics" and "metric \<in> set metrics"
  shows "\<exists>cmd. eval_cmd m topic metric = Inr cmd \<and> triple_event d cmd \<in> set tr"
proof -
  let ?st0 = "\<lparr>trace = tr0 @ [Log INFO VerifyBanner], failures = False, results = Map.empty\<rparr>"
  let ?fm = "filter (name_in eval_supported_methods) ms"
  from assms(1,2) obtain st where st: "methods_loop ev d y ?fm ?st0 = Done st"
    and tr: "tr = trace st @ [Log INFO ExecutionTime,
                 if failures st then Log ERROR SomeFailed else Log INFO AllPassed]"
    by (cases "methods_loop ev d y ?fm ?st0") (simp_all add: evaluate_and_verify_def subscript_def)
  have "m \<in> set ?fm" using assms(3,4) by simp
  from methods_loop_done_events [OF st this assms(5,6,7,8)] tr show ?thesis by auto
qed

lemma name_in_eval_supported:
  "name_in eval_supported_methods m \<longleftrightarrow>
     m_name m \<in> {Some ''rrf'', Some ''average'', Some ''interpolation'', Some ''normalize''}"
  by (cases "m_name m") (auto simp: name_in_def eval_supported_methods_def)


lemma check_run_files_missing:
  "check_run_files ev rs = Inr (Some f) \<Longrightarrow>
     list_ex (\<lambda>r. \<exists>f. r_file r = Some f \<and> \<not> path_exists ev f) rs"
  by (induction rs) (auto simp: subscript_def split: option.splits if_splits)

lemma check_run_files_not_ok:
  "list_ex (\<lambda>r. \<exists>f. r_file r = Some f \<and> \<not> path_exists ev f) rs \<Longrightarrow>
     check_run_files ev rs \<noteq> Inr None"
  by (induction rs) (auto simp: subscript_def split: option.splits if_splits)

lemma run_regression_exit:
  "fst (run_regression ev a y) = Exit 0 \<or> (\<exists>e. fst (run_regression ev a y) = Uncaught e)"
proof -
  obtain evs r where c: "construct_fusion_commands y (a_use_pyserini a) = (evs, r)"
    by (cases "construct_fusion_commands y (a_use_pyserini a)")
  show ?thesis
  proof (cases r)
    case (Inl e)
    with c show ?thesis by (simp add: run_regression_def)
  next
    case (Inr cmds)
    let ?tr1 = "Log INFO (UsingImplementation (if a_use_pyserini a then ''Pyserini'' else ''Anserini'')) # evs"
    show ?thesis
    proof (cases "fusion_phase ev a cmds ?tr1")
      case (Raised e tr2)
      with c Inr show ?thesis by (simp add: run_regression_def)
    next
      case (Done tr2)
      with c Inr show ?thesis
        by (cases "evaluate_and_verify ev y (a_dry_run a) tr2") (simp_all add: run_regression_def)
    qed
  qed
qed

lemmas example_defs =
  example_env_def example_config_def example_runs_def example_method_def example_topic_def
  example_metric_def trec_eval_output_def

lemmas eval_defs =
  main_cases run_regression_def fusion_phase_def evaluate_and_verify_def verify_triple_def
  eval_cmd_def check_output_def last_line_def parse_scores_def result_names_def
  record_result_def subscript_def path_join_def output_runfile_def config_path_def
  name_in_def eval_supported_methods_def supported_methods_def construct_fusion_commands_def
  fusion_command_def run_files_of_def anserini_command_def ANSERINI_FUSE_COMMAND_def
  get_default_def join_tokens_def
  py_index_def py_strip_def is_space_def py_split_def
  decimal_float_def is_digit_def digits_value_def digit_value_def decimal_round_def
  round_half_even_def passes_def is_close_default_iff Let_def

lemma example_normalize_main:
  "main (example_env (example_config [example_method ''normalize'' None])
           (Inr (0, Some (trec_eval_output ''0.3000''))))
     \<lparr>a_regression = ''demo'', a_dry_run = False, a_use_pyserini = False\<rparr> =
   (Exit 0,
    [Log INFO (UsingImplementation ''Anserini''), Log INFO (TestingMethods []),
     Log INFO VerifyBanner,
     Spawn ''bin/trec_eval -m ndcg_cut.10 tools/topics-and-qrels/qrels.dl19.txt runs/fused.normalize'',
     Log ERROR (Verdict False (4123 / 10000) (3 / 10) ''nDCG@10'' ''normalize'' ''dl19''),
     Log INFO ExecutionTime, Log ERROR SomeFailed, Log INFO ExecutionTime])"
  by (simp add: example_defs eval_defs)

lemma example_unparseable_main:
  "main (example_env (example_config [example_method ''rrf'' None]) (Inr (0, Some ''0.3000'')))
     \<lparr>a_regression = ''demo'', a_dry_run = False, a_use_pyserini = False\<rparr> =
   (Uncaught IndexError,
    [Log INFO (UsingImplementation ''Anserini''), Log INFO (TestingMethods [Some ''rrf'']),
     Log INFO (RunningCommand
       ''bin/run.sh io.anserini.fusion.FuseRuns -runs runs/run.bm25.txt runs/run.dense.txt -output runs/fused.rrf -method rrf -k 1000 -depth 1000 -rrf_k 60 -alpha 0.5''),
     Spawn ''bin/run.sh io.anserini.fusion.FuseRuns -runs runs/run.bm25.txt runs/run.dense.txt -output runs/fused.rrf -method rrf -k 1000 -depth 1000 -rrf_k 60 -alpha 0.5'',
     Log INFO VerifyBanner,
     Spawn ''bin/trec_eval -m ndcg_cut.10 tools/topics-and-qrels/qrels.dl19.txt runs/fused.rrf''])"
  by (simp add: example_defs eval_defs py_str_defaults del: py_str.simps)

subsection \<open>The tolerance comparison\<close>




subsection \<open>Command construction\<close>

text \<open>
  Claim C4. For every configuration (with its \<open>methods\<close> and \<open>runs\<close> keys and a
  \<open>file\<close> in every run) and for both backends, the command builder returns exactly one
  command per configured method whose name is \<open>rrf\<close>, \<open>average\<close> or \<open>interpolation\<close>,
  in their order; each command holds the full list of run files and the output path of its
  method; a method named \<open>normalize\<close> gets no command.
\<close>

theorem construct_one_command_per_method:
  assumes "y_methods y = Some ms" and "y_runs y = Some rs" and "\<forall>r\<in>set rs. r_file r \<noteq> None"
  shows "snd (construct_fusion_commands y use_pyserini) =
           Inr (map (one_command use_pyserini (map (\<lambda>r. the (r_file r)) rs))
                  (filter (\<lambda>m. m_name m \<in> {Some ''rrf'', Some ''average'', Some ''interpolation''}) ms))
         \<and> (\<forall>m. has_args (Some (if use_pyserini then ''--output'' else ''-output'')) [m_output m]
                  (one_command use_pyserini (map (\<lambda>r. the (r_file r)) rs) m)
               \<and> (if use_pyserini
                  then has_args (Some ''--runs'') (map Some (map (\<lambda>r. the (r_file r)) rs))
                         (one_command True (map (\<lambda>r. the (r_file r)) rs) m)
                  else has_args (Some ''-runs'') [Some (join '' '' (map (\<lambda>r. the (r_file r)) rs))]
                         (one_command False (map (\<lambda>r. the (r_file r)) rs) m)))
         \<and> (\<forall>m\<in>set ms. m_name m = Some ''normalize'' \<longrightarrow>
               m \<notin> set (filter (\<lambda>m. m_name m \<in> {Some ''rrf'', Some ''average'', Some ''interpolation''}) ms))"
proof -
  let ?fs = "map (\<lambda>r. the (r_file r)) rs"
  have rf: "run_files_of y = Inr ?fs"
    using assms(2,3) by (simp add: run_files_of_cases)
  have f: "filter (name_in supported_methods) ms =
           filter (\<lambda>m. m_name m \<in> {Some ''rrf'', Some ''average'', Some ''interpolation''}) ms"
    by (rule filter_cong) (simp_all only: name_in_supported)
  have 1: "snd (construct_fusion_commands y use_pyserini) =
           Inr (map (one_command use_pyserini ?fs)
                  (filter (\<lambda>m. m_name m \<in> {Some ''rrf'', Some ''average'', Some ''interpolation''}) ms))"
    using assms(1) rf by (simp add: construct_cases f)
  have 2: "has_args (Some (if use_pyserini then ''--output'' else ''-output'')) [m_output m]
             (one_command use_pyserini ?fs m)" for m
    using pyserini_has_output [of m ?fs] anserini_has(2) [of m ?fs]
    by (simp add: one_command_def)
  have 3: "if use_pyserini
           then has_args (Some ''--runs'') (map Some ?fs) (one_command True ?fs m)
           else has_args (Some ''-runs'') [Some (join '' '' ?fs)] (one_command False ?fs m)" for m
    using pyserini_has_runs [of ?fs m] anserini_has(1) [of ?fs m]
    by (simp add: one_command_def)
  have 4: "\<forall>m\<in>set ms. m_name m = Some ''normalize'' \<longrightarrow>
             m \<notin> set (filter (\<lambda>m. m_name m \<in> {Some ''rrf'', Some ''average'', Some ''interpolation''}) ms)"
    by simp
  from 1 2 3 4 show ?thesis by blast
qed

theorem construct_one_command_per_method_witness:
  "y_methods (example_config [example_method ''rrf'' None, example_method ''normalize'' None])
     = Some [example_method ''rrf'' None, example_method ''normalize'' None]
   \<and> y_runs (example_config [example_method ''rrf'' None, example_method ''normalize'' None])
     = Some example_runs
   \<and> None \<notin> set (map r_file example_runs)
   \<and> snd (construct_fusion_commands
            (example_config [example_method ''rrf'' None, example_method ''normalize'' None]) True)
     = Inr [one_command True [''runs/run.bm25.txt'', ''runs/run.dense.txt'']
              (example_method ''rrf'' None)]"
proof -
  let ?ms = "[example_method ''rrf'' None, example_method ''normalize'' None]"
  have h1: "y_methods (example_config ?ms) = Some ?ms"
    and h2: "y_runs (example_config ?ms) = Some example_runs"
    by (simp_all add: example_config_def)
  have h3: "\<forall>r\<in>set example_runs. r_file r \<noteq> None"
    by (simp add: example_runs_def)
  show ?thesis
    using h1 h2 construct_one_command_per_method [OF h1 h2 h3, of True]
    by (simp add: example_runs_def example_method_def)
qed

text \<open>
  Claim C5. For a supported method, the command of the native backend (Anserini) always
  holds the four flags \<open>-k\<close>, \<open>-depth\<close>, \<open>-rrf_k\<close> and \<open>-alpha\<close>, with the values
  1000, 1000, 60 and 0.5 where the configuration omits them. The command of the alternate
  backend (Pyserini) always holds \<open>--runtag pyserini.<method>\<close>, holds \<open>--rrf.k\<close> with its
  value when the method is \<open>rrf\<close> and \<open>--alpha\<close> with its value when it is
  \<open>interpolation\<close>; and, when no run file or output path is itself one of these two
  strings, the token \<open>--rrf.k\<close> occurs only for \<open>rrf\<close> and \<open>--alpha\<close> only for
  \<open>interpolation\<close>.
\<close>

theorem backend_parameter_flags:
  assumes "y_methods y = Some ms" and "y_runs y = Some rs" and "\<forall>r\<in>set rs. r_file r \<noteq> None"
    and "m \<in> set ms" and "m_name m = Some n" and "n \<in> {''rrf'', ''average'', ''interpolation''}"
    and "fs = map (\<lambda>r. the (r_file r)) rs"
  shows "(\<exists>cmds. snd (construct_fusion_commands y False) = Inr cmds
            \<and> one_command False fs m \<in> set cmds)
       \<and> has_args (Some ''-k'') [Some (case m_k m of None \<Rightarrow> ''1000'' | Some v \<Rightarrow> py_str v)]
            (one_command False fs m)
       \<and> has_args (Some ''-depth'') [Some (case m_depth m of None \<Rightarrow> ''1000'' | Some v \<Rightarrow> py_str v)]
            (one_command False fs m)
       \<and> has_args (Some ''-rrf_k'') [Some (case m_rrf_k m of None \<Rightarrow> ''60'' | Some v \<Rightarrow> py_str v)]
            (one_command False fs m)
       \<and> has_args (Some ''-alpha'') [Some (case m_alpha m of None \<Rightarrow> ''0.5'' | Some v \<Rightarrow> py_str v)]
            (one_command False fs m)
       \<and> (\<exists>cmds. snd (construct_fusion_commands y True) = Inr cmds
            \<and> one_command True fs m \<in> set cmds)
       \<and> has_args (Some ''--runtag'') [Some (''pyserini.'' @ n)] (one_command True fs m)
       \<and> (n = ''rrf'' \<longrightarrow>
            has_args (Some ''--rrf.k'') [Some (case m_rrf_k m of None \<Rightarrow> ''60'' | Some v \<Rightarrow> py_str v)]
              (one_command True fs m))
       \<and> (n = ''interpolation'' \<longrightarrow>
            has_args (Some ''--alpha'') [Some (case m_alpha m of None \<Rightarrow> ''0.5'' | Some v \<Rightarrow> py_str v)]
              (one_command True fs m))
       \<and> ((\<forall>f\<in>set fs. f \<noteq> ''--rrf.k'' \<and> f \<noteq> ''--alpha'')
            \<and> m_output m \<noteq> Some ''--rrf.k'' \<and> m_output m \<noteq> Some ''--alpha'' \<longrightarrow>
            (Some ''--rrf.k'' \<in> set (one_command True fs m) \<longleftrightarrow> n = ''rrf'')
            \<and> (Some ''--alpha'' \<in> set (one_command True fs m) \<longleftrightarrow> n = ''interpolation''))"
proof -
  have g: "get_default (m_name m) ''average'' = n" using assms(5) by (simp add: get_default_def)
  note mem = construct_member [OF assms(1-6), folded assms(7)]
  have a: "one_command False fs m = anserini_command fs m"
    and b: "one_command True fs m = snd (pyserini_command fs m)"
    by (simp_all add: one_command_def)
  have 1: "has_args (Some ''-k'') [Some (case m_k m of None \<Rightarrow> ''1000'' | Some v \<Rightarrow> py_str v)]
            (one_command False fs m)"
    using anserini_has_params(1) [of m fs] by (simp only: a get_default_str)
  have 2: "has_args (Some ''-depth'') [Some (case m_depth m of None \<Rightarrow> ''1000'' | Some v \<Rightarrow> py_str v)]
            (one_command False fs m)"
    using anserini_has_params(2) [of m fs] by (simp only: a get_default_str)
  have 3: "has_args (Some ''-rrf_k'') [Some (case m_rrf_k m of None \<Rightarrow> ''60'' | Some v \<Rightarrow> py_str v)]
            (one_command False fs m)"
    using anserini_has_params(3) [of m fs] by (simp only: a get_default_str)
  have 4: "has_args (Some ''-alpha'') [Some (case m_alpha m of None \<Rightarrow> ''0.5'' | Some v \<Rightarrow> py_str v)]
            (one_command False fs m)"
    using anserini_has_params(4) [of m fs] by (simp only: a get_default_str)
  have 5: "has_args (Some ''--runtag'') [Some (''pyserini.'' @ n)] (one_command True fs m)"
    using pyserini_has_runtag [of m fs] by (simp only: b g)
  have 6: "n = ''rrf'' \<longrightarrow>
            has_args (Some ''--rrf.k'') [Some (case m_rrf_k m of None \<Rightarrow> ''60'' | Some v \<Rightarrow> py_str v)]
              (one_command True fs m)"
    using pyserini_has_rrf_k [of m fs] g by (simp only: b get_default_str) blast
  have 7: "n = ''interpolation'' \<longrightarrow>
            has_args (Some ''--alpha'') [Some (case m_alpha m of None \<Rightarrow> ''0.5'' | Some v \<Rightarrow> py_str v)]
              (one_command True fs m)"
    using pyserini_has_alpha [of m fs] g by (simp only: b get_default_str) blast
  have 8: "(\<forall>f\<in>set fs. f \<noteq> ''--rrf.k'' \<and> f \<noteq> ''--alpha'')
            \<and> m_output m \<noteq> Some ''--rrf.k'' \<and> m_output m \<noteq> Some ''--alpha'' \<longrightarrow>
            (Some ''--rrf.k'' \<in> set (one_command True fs m) \<longleftrightarrow> n = ''rrf'')
            \<and> (Some ''--alpha'' \<in> set (one_command True fs m) \<longleftrightarrow> n = ''interpolation'')"
    using pyserini_flag_iff [OF assms(6,5), of fs] by (simp only: b) blast
  from mem [of False] mem [of True] 1 2 3 4 5 6 7 8 show ?thesis by blast
qed

theorem backend_parameter_flags_witness:
  "y_methods (example_config [example_method ''interpolation'' (Some (PFloat 7 (- 1)))])
     = Some [example_method ''interpolation'' (Some (PFloat 7 (- 1)))]
   \<and> y_runs (example_config [example_method ''interpolation'' (Some (PFloat 7 (- 1)))])
     = Some example_runs
   \<and> None \<notin> set (map r_file example_runs)
   \<and> example_method ''interpolation'' (Some (PFloat 7 (- 1)))
     \<in> set [example_method ''interpolation'' (Some (PFloat 7 (- 1)))]
   \<and> m_name (example_method ''interpolation'' (Some (PFloat 7 (- 1)))) = Some ''interpolation''
   \<and> ''interpolation'' \<in> {''rrf'', ''average'', ''interpolation''}
   \<and> has_args (Some ''--runtag'') [Some ''pyserini.interpolation'']
        (one_command True (map (\<lambda>r. the (r_file r)) example_runs)
           (example_method ''interpolation'' (Some (PFloat 7 (- 1)))))
   \<and> has_args (Some ''-rrf_k'') [Some ''60'']
        (one_command False (map (\<lambda>r. the (r_file r)) example_runs)
           (example_method ''interpolation'' (Some (PFloat 7 (- 1)))))"
proof -
  let ?m = "example_method ''interpolation'' (Some (PFloat 7 (- 1)))"
  have h1: "y_methods (example_config [?m]) = Some [?m]"
    and h2: "y_runs (example_config [?m]) = Some example_runs"
    by (simp_all add: example_config_def)
  have h3: "\<forall>r\<in>set example_runs. r_file r \<noteq> None"
    by (simp add: example_runs_def)
  have h4: "?m \<in> set [?m]" by simp
  have h5: "m_name ?m = Some ''interpolation''" by (simp add: example_method_def)
  have h6: "''interpolation'' \<in> {''rrf'', ''average'', ''interpolation''}" by simp
  have r: "m_rrf_k ?m = None" by (simp add: example_method_def)
  from backend_parameter_flags [OF h1 h2 h3 h4 h5 h6 refl]
  have "has_args (Some ''--runtag'') [Some (''pyserini.'' @ ''interpolation'')]
          (one_command True (map (\<lambda>r. the (r_file r)) example_runs) ?m)"
    and "has_args (Some ''-rrf_k'') [Some (case m_rrf_k ?m of None \<Rightarrow> ''60'' | Some v \<Rightarrow> py_str v)]
          (one_command False (map (\<lambda>r. the (r_file r)) example_runs) ?m)"
    by blast+
  then show ?thesis using h1 h2 h5 by (simp add: r example_runs_def)
qed

text \<open>
  Claim C7, as stated: the command builder has no side effects, and its only error
  condition is a configuration with missing required keys, on which it fails with an
  error instead of substituting a default. It fails on the code: a method without the
  required key \<open>output\<close> raises nothing, and \<^verbatim>\<open>None\<close> stands in the command where the
  output path belongs.
\<close>

theorem construct_missing_output_counterexample:
  "m_output (example_method ''rrf'' None\<lparr>m_output := None\<rparr>) = None
   \<and> snd (construct_fusion_commands
            (example_config [example_method ''rrf'' None\<lparr>m_output := None\<rparr>]) False)
     = Inr [[Some ''bin/run.sh io.anserini.fusion.FuseRuns'',
             Some ''-runs'', Some ''runs/run.bm25.txt runs/run.dense.txt'',
             Some ''-output'', None, Some ''-method'', Some ''rrf'',
             Some ''-k'', Some ''1000'', Some ''-depth'', Some ''1000'',
             Some ''-rrf_k'', Some ''60'', Some ''-alpha'', Some ''0.5'']]"
  by (simp add: construct_cases example_config_def example_method_def example_runs_def
      run_files_of_cases name_in_supported one_command_def anserini_command_def
      ANSERINI_FUSE_COMMAND_def get_default_def py_str_defaults del: py_str.simps)

text \<open>
  Claim C7, amended. The command builder starts no process: its only effect is log
  records. It raises exactly in two cases, both a KeyError: the key \<open>methods\<close> is
  missing; or some configured method is supported and the key \<open>runs\<close>, or the key
  \<open>file\<close> of some run, is missing. A method without \<open>name\<close> is dropped and a method
  without \<open>output\<close>, \<open>k\<close>, \<open>depth\<close>, \<open>rrf_k\<close> or \<open>alpha\<close> raises nothing.
\<close>

theorem construct_errors:
  "(\<forall>ev\<in>set (fst (construct_fusion_commands y use_pyserini)). \<not> is_spawn ev)
   \<and> (snd (construct_fusion_commands y use_pyserini) = Inl e \<longleftrightarrow>
        (y_methods y = None \<and> e = KeyError ''methods'')
        \<or> (\<exists>ms. y_methods y = Some ms
               \<and> (\<exists>m\<in>set ms. m_name m \<in> {Some ''rrf'', Some ''average'', Some ''interpolation''})
               \<and> ((y_runs y = None \<and> e = KeyError ''runs'')
                    \<or> (\<exists>rs. y_runs y = Some rs \<and> (\<exists>r\<in>set rs. r_file r = None)
                           \<and> e = KeyError ''file''))))"
proof -
  have ne: "filter (name_in supported_methods) ms \<noteq> [] \<longleftrightarrow>
        (\<exists>m\<in>set ms. m_name m \<in> {Some ''rrf'', Some ''average'', Some ''interpolation''})" for ms
    by (simp only: filter_empty_conv name_in_supported) blast
  have rf: "run_files_of y = Inl e \<longleftrightarrow>
        (y_runs y = None \<and> e = KeyError ''runs'')
        \<or> (\<exists>rs. y_runs y = Some rs \<and> (\<exists>r\<in>set rs. r_file r = None) \<and> e = KeyError ''file'')"
    by (cases "y_runs y") (auto simp: run_files_of_cases)
  have "snd (construct_fusion_commands y use_pyserini) = Inl e \<longleftrightarrow>
        (y_methods y = None \<and> e = KeyError ''methods'')
        \<or> (\<exists>ms. y_methods y = Some ms \<and> filter (name_in supported_methods) ms \<noteq> []
               \<and> run_files_of y = Inl e)"
    by (cases "y_methods y"; cases "run_files_of y") (auto simp: construct_cases)
  then show ?thesis using construct_no_spawn [of y use_pyserini] by (simp only: ne rf)
qed

theorem construct_errors_witness:
  "fst (construct_fusion_commands
          ((example_config [example_method ''rrf'' None])\<lparr>y_runs := None\<rparr>) True) \<noteq> []
   \<and> snd (construct_fusion_commands
          ((example_config [example_method ''rrf'' None])\<lparr>y_runs := None\<rparr>) True)
     = Inl (KeyError ''runs'')"
proof -
  let ?y = "(example_config [example_method ''rrf'' None])\<lparr>y_runs := None\<rparr>"
  have "y_methods ?y = Some [example_method ''rrf'' None]"
    and "m_name (example_method ''rrf'' None) = Some ''rrf''"
    and "y_runs ?y = None"
    by (simp_all add: example_config_def example_method_def)
  then have "snd (construct_fusion_commands ?y True) = Inl (KeyError ''runs'')"
    using construct_errors [of ?y True "KeyError ''runs''"] by simp
  moreover have "fst (construct_fusion_commands ?y True) \<noteq> []"
    by (simp add: construct_fusion_commands_def example_config_def subscript_def Let_def
        split: prod.splits)
  ultimately show ?thesis by simp
qed

subsection \<open>Verdicts\<close>

lemma example_eval_cmd:
  "eval_cmd (example_method name alpha) example_topic example_metric =
     Inr [''bin/trec_eval'', ''-m ndcg_cut.10'', ''tools/topics-and-qrels/qrels.dl19.txt'',
          ''runs/fused.'' @ name]"
  by (simp add: eval_cmd_def example_method_def example_topic_def example_metric_def
      subscript_def path_join_def output_runfile_def)

lemma example_last_line:
  "last_line (Some (trec_eval_output ''0.3000'')) =
     Inr (''ndcg_cut_10'' @ [CHR 0x09] @ ''all'' @ [CHR 0x09] @ ''0.3000'')"
  by (simp add: last_line_def trec_eval_output_def py_index_def py_strip_def is_space_def)

lemma example_parse_scores:
  "parse_scores (example_env y eval) (example_method name alpha) 0 example_metric
     (''ndcg_cut_10'' @ [CHR 0x09] @ ''all'' @ [CHR 0x09] @ ''0.3000'') =
   Inr (4123 / 10000, 3 / 10)"
  by (simp add: parse_scores_def example_env_def example_method_def example_metric_def
      subscript_def py_split_def py_strip_def is_space_def py_index_def
      decimal_float_def is_digit_def digits_value_def digit_value_def
      decimal_round_def round_half_even_def Let_def)

lemma example_result_names:
  "result_names (example_method name alpha) example_topic example_metric =
     Inr (''nDCG@10'', name, ''dl19'')"
  by (simp add: result_names_def example_method_def example_topic_def example_metric_def
      subscript_def)

text \<open>
  Claim C1. A triple that is evaluated, with the rounded scores \<open>expected\<close> and \<open>actual\<close>,
  is logged as OK if and only if \<open>is_close expected actual\<close> holds with the relative
  tolerance 1e-9 and the absolute tolerance 0, or \<open>actual > expected\<close>; otherwise it is
  logged as FAIL and the failure flag is set. In every run of \<open>evaluate_and_verify\<close> that
  ends, each verdict in the log obeys this rule and the summary is "Some tests failed"
  exactly when a FAIL verdict was logged.
\<close>

theorem verdict_rule:
  assumes "eval_cmd m topic metric = Inr cmd"
    and "sys_popen ev (trace st @ [Spawn (join '' '' cmd)]) (join '' '' cmd) = Inr (0, output)"
    and "last_line output = Inr out"
    and "parse_scores ev m i metric out = Inr (expected, actual)"
    and "result_names m topic metric = Inr (metric_name, method_name, topic_id)"
  shows "verify_triple ev False m i topic metric st =
           (if is_close expected actual (1 / 10 ^ 9) 0 \<or> expected < actual
            then Done (st\<lparr>trace := trace st @
                         [Spawn (join '' '' cmd),
                          Log INFO (Verdict True expected actual metric_name method_name topic_id)],
                       results := record_result method_name metric_name actual (results st)\<rparr>)
            else Done (st\<lparr>trace := trace st @
                         [Spawn (join '' '' cmd),
                          Log ERROR (Verdict False expected actual metric_name method_name topic_id)],
                       failures := True,
                       results := record_result method_name metric_name actual (results st)\<rparr>))
         \<and> (\<forall>y dry_run tr0 tr. evaluate_and_verify ev y dry_run tr0 = Done tr \<longrightarrow>
               (\<exists>evs. tr = tr0 @ Log INFO VerifyBanner # evs @
                        [Log INFO ExecutionTime,
                         if list_ex is_fail evs then Log ERROR SomeFailed else Log INFO AllPassed]
                      \<and> list_all verdict_ok evs \<and> \<not> list_ex is_summary evs))"
  using verify_triple_verdict [OF assms] evaluate_and_verify_summary [of ev] by blast

theorem verdict_rule_witness:
  "eval_cmd (example_method ''rrf'' None) example_topic example_metric =
     Inr [''bin/trec_eval'', ''-m ndcg_cut.10'', ''tools/topics-and-qrels/qrels.dl19.txt'',
          ''runs/fused.rrf'']
   \<and> last_line (Some (trec_eval_output ''0.3000'')) =
     Inr (''ndcg_cut_10'' @ [CHR 0x09] @ ''all'' @ [CHR 0x09] @ ''0.3000'')
   \<and> verify_triple (example_env (example_config []) (Inr (0, Some (trec_eval_output ''0.3000'')))) False
       (example_method ''rrf'' None) 0 example_topic example_metric
       \<lparr>trace = [], failures = False, results = Map.empty\<rparr> =
     Done \<lparr>trace =
             [Spawn ''bin/trec_eval -m ndcg_cut.10 tools/topics-and-qrels/qrels.dl19.txt runs/fused.rrf'',
              Log ERROR (Verdict False (4123 / 10000) (3 / 10) ''nDCG@10'' ''rrf'' ''dl19'')],
           failures = True,
           results = [''rrf'' \<mapsto> [''nDCG@10'' \<mapsto> 3 / 10]]\<rparr>"
proof -
  let ?ev = "example_env (example_config []) (Inr (0, Some (trec_eval_output ''0.3000'')))"
  let ?st = "\<lparr>trace = [], failures = False, results = Map.empty\<rparr>"
  have h1: "eval_cmd (example_method ''rrf'' None) example_topic example_metric =
     Inr [''bin/trec_eval'', ''-m ndcg_cut.10'', ''tools/topics-and-qrels/qrels.dl19.txt'',
          ''runs/fused.rrf'']"
    using example_eval_cmd [of "''rrf''" None] by simp
  have h2: "sys_popen ?ev (trace ?st @ [Spawn c]) c = Inr (0, Some (trec_eval_output ''0.3000''))"
    for c
    by (simp add: example_env_def)
  note h3 = example_last_line
  note h4 = example_parse_scores [of "example_config []" "Inr (0, Some (trec_eval_output ''0.3000''))" "''rrf''" None]
  note h5 = example_result_names [of "''rrf''" None]
  have c: "\<not> (is_close (4123 / 10000) (3 / 10) (1 / 10 ^ 9) 0 \<or> (4123 / 10000 :: real) < 3 / 10)"
    by (simp add: is_close_def)
  from verdict_rule [OF h1 h2 h3 h4 h5]
  have "verify_triple ?ev False (example_method ''rrf'' None) 0 example_topic example_metric ?st =
     Done (?st\<lparr>trace := trace ?st @
             [Spawn (join '' '' [''bin/trec_eval'', ''-m ndcg_cut.10'',
                       ''tools/topics-and-qrels/qrels.dl19.txt'', ''runs/fused.rrf'']),
              Log ERROR (Verdict False (4123 / 10000) (3 / 10) ''nDCG@10'' ''rrf'' ''dl19'')],
           failures := True,
           results := record_result ''rrf'' ''nDCG@10'' (3 / 10) (results ?st)\<rparr>)"
    using c by (simp only: if_False)
  then show ?thesis using h1 h3 by (simp add: record_result_def)
qed

text \<open>
  Claim C3, as stated: when the evaluation command fails or its output yields no score
  (no non-blank line, or the split, the index or the float parse of the result line
  fails), the triple is logged and skipped and the next triple is processed. It fails on
  the code for the parse: lines 216 to 218 stand after the \<^verbatim>\<open>try\<close>, so a result line
  without the separator raises IndexError out of \<open>evaluate_and_verify\<close>. Below, the
  evaluator prints \<open>0.3000\<close> alone: nothing is logged for the triple and the triple of
  the second method is never evaluated.
\<close>

theorem unparseable_line_counterexample:
  "evaluate_and_verify (example_env (example_config []) (Inr (0, Some ''0.3000'')))
     (example_config [example_method ''rrf'' None, example_method ''average'' None]) False [] =
   Raised IndexError
     [Log INFO VerifyBanner,
      Spawn ''bin/trec_eval -m ndcg_cut.10 tools/topics-and-qrels/qrels.dl19.txt runs/fused.rrf'']"
  by (simp add: evaluate_and_verify_def example_config_def name_in_def eval_supported_methods_def
      verify_triple_def eval_cmd_def example_metric_def example_topic_def example_method_def
      subscript_def path_join_def output_runfile_def check_output_def example_env_def
      last_line_def py_index_def py_strip_def is_space_def parse_scores_def py_split_def)

text \<open>
  Claim C3, amended. When the evaluation command cannot be started, ends with a non-zero
  return code, prints bytes that are not UTF-8 or prints no non-blank line, the triple is
  logged as an error and skipped: it adds no verdict, leaves the failure flag and the
  results as they were, and the loop goes on with the next metric.
\<close>

theorem failed_evaluation_is_skipped:
  assumes "eval_cmd m topic metric = Inr cmd" and "c = join '' '' cmd"
    and "sys_popen ev (trace st @ [Spawn c]) c = r"
    and "(\<exists>e. r = Inl e)
         \<or> (\<exists>rc out. r = Inr (rc, out)
               \<and> (rc \<noteq> 0 \<or> out = None
                    \<or> (\<exists>body. out = Some body
                          \<and> list_all (\<lambda>line. py_strip line = []) (split_on [CHR 0x0A] [] body))))"
    and "e = (case r of
                Inl e' \<Rightarrow> e'
              | Inr (rc, out) \<Rightarrow>
                  if rc \<noteq> 0 then RuntimeError c
                  else if out = None then UnicodeDecodeError else IndexError)"
    and "st' = st\<lparr>trace := trace st @ [Spawn c, Log ERROR (EvalFailed e)]\<rparr>"
  shows "verify_triple ev False m i topic metric st = Done st'
         \<and> failures st' = failures st \<and> results st' = results st
         \<and> metrics_loop ev False m i topic (metric # rest) st =
             metrics_loop ev False m i topic rest st'"
proof -
  have r: "sys_popen ev (trace st @ [Spawn (join '' '' cmd)]) (join '' '' cmd) = r"
    using assms(2,3) by simp
  have "(case (case r of Inl e \<Rightarrow> Inl e
               | Inr (returncode, x) \<Rightarrow>
                   if returncode = 0 then Inr x else Inl (RuntimeError (join '' '' cmd))) of
           Inl e \<Rightarrow> Inl e | Inr x \<Rightarrow> last_line x) = Inl e"
    using assms(4,5) blank_lines_index
    by (cases r) (auto simp: last_line_def assms(2) split: option.splits)
  then have "verify_triple ev False m i topic metric st =
      Done (st\<lparr>trace := trace st @ [Spawn (join '' '' cmd), Log ERROR (EvalFailed e)]\<rparr>)"
    using assms(1) r by (simp add: verify_triple_def check_output_def Let_def)
  then have "verify_triple ev False m i topic metric st = Done st'"
    using assms(2,6) by simp
  then show ?thesis using assms(6) by simp
qed

theorem failed_evaluation_is_skipped_witness:
  "eval_cmd (example_method ''rrf'' None) example_topic example_metric =
     Inr [''bin/trec_eval'', ''-m ndcg_cut.10'', ''tools/topics-and-qrels/qrels.dl19.txt'',
          ''runs/fused.rrf'']
   \<and> verify_triple (example_env (example_config []) (Inr (1, Some []))) False
       (example_method ''rrf'' None) 0 example_topic example_metric
       \<lparr>trace = [], failures = False, results = Map.empty\<rparr> =
     Done \<lparr>trace =
             [Spawn ''bin/trec_eval -m ndcg_cut.10 tools/topics-and-qrels/qrels.dl19.txt runs/fused.rrf'',
              Log ERROR (EvalFailed (RuntimeError
                ''bin/trec_eval -m ndcg_cut.10 tools/topics-and-qrels/qrels.dl19.txt runs/fused.rrf''))],
           failures = False, results = Map.empty\<rparr>"
proof -
  let ?ev = "example_env (example_config []) (Inr (1, Some []))"
  let ?st = "\<lparr>trace = [], failures = False, results = Map.empty\<rparr>"
  let ?c = "''bin/trec_eval -m ndcg_cut.10 tools/topics-and-qrels/qrels.dl19.txt runs/fused.rrf''"
  have h1: "eval_cmd (example_method ''rrf'' None) example_topic example_metric =
     Inr [''bin/trec_eval'', ''-m ndcg_cut.10'', ''tools/topics-and-qrels/qrels.dl19.txt'',
          ''runs/fused.rrf'']"
    using example_eval_cmd [of "''rrf''" None] by simp
  have h2: "?c = join '' '' [''bin/trec_eval'', ''-m ndcg_cut.10'',
                    ''tools/topics-and-qrels/qrels.dl19.txt'', ''runs/fused.rrf'']"
    by simp
  have h3: "sys_popen ?ev (trace ?st @ [Spawn ?c]) ?c = Inr (1, Some [])"
    by (simp add: example_env_def)
  have h4: "(\<exists>e. (Inr (1, Some []) :: py_error + int \<times> string option) = Inl e)
         \<or> (\<exists>rc out. (Inr (1, Some []) :: py_error + int \<times> string option) = Inr (rc, out)
               \<and> (rc \<noteq> 0 \<or> out = None
                    \<or> (\<exists>body. out = Some body
                          \<and> list_all (\<lambda>line. py_strip line = []) (split_on [CHR 0x0A] [] body))))"
    by simp
  have h5: "RuntimeError ?c =
        (case (Inr (1, Some []) :: py_error + int \<times> string option) of
           Inl e' \<Rightarrow> e'
         | Inr (rc, out) \<Rightarrow>
             if rc \<noteq> 0 then RuntimeError ?c
             else if out = None then UnicodeDecodeError else IndexError)"
    by simp
  from failed_evaluation_is_skipped [OF h1 h2 h3 h4 h5 refl]
  have "verify_triple ?ev False (example_method ''rrf'' None) 0 example_topic example_metric ?st =
          Done (?st\<lparr>trace := trace ?st @ [Spawn ?c, Log ERROR (EvalFailed (RuntimeError ?c))]\<rparr>)"
    by blast
  then show ?thesis using h1 by simp
qed

subsection \<open>Dry runs\<close>

text \<open>
  Claim C9. In dry-run mode no subprocess is started, neither for a fusion command nor
  for an evaluation command: the trace of the script holds no \<open>Spawn\<close> event, the
  commands are only rendered and logged. In particular, when the configuration loads, its
  run files exist and its methods have output paths, the backend is Pyserini and a method
  \<open>interpolation\<close> has \<open>alpha = 0.7\<close>, a rendered command line that is logged contains
  \<open>--alpha 0.7\<close>; and when the verification ends, the evaluation command of every triple
  has been rendered and logged.
\<close>

theorem dry_run_renders_only:
  assumes "a_dry_run a"
  shows "\<not> list_ex is_spawn (snd (main ev a))
       \<and> (\<forall>y ms rs m.
             a_use_pyserini a \<and> open_yaml ev (config_path (a_regression a)) = Inr y
             \<and> y_methods y = Some ms \<and> y_runs y = Some rs
             \<and> list_all (\<lambda>r. \<exists>f. r_file r = Some f \<and> path_exists ev f) rs
             \<and> list_all (\<lambda>m. m_output m \<noteq> None) ms
             \<and> m \<in> set ms \<and> m_name m = Some ''interpolation''
             \<and> m_alpha m = Some (PFloat 7 (- 1))
           \<longrightarrow> (\<exists>line. Log INFO (Rendered line) \<in> set (snd (main ev a))
                      \<and> contains ''--alpha 0.7'' line))
       \<and> (\<forall>y tr0 tr ms topics metrics m topic metric.
             evaluate_and_verify ev y True tr0 = Done tr
             \<and> y_methods y = Some ms \<and> m \<in> set ms
             \<and> m_name m \<in> {Some ''rrf'', Some ''average'', Some ''interpolation'', Some ''normalize''}
             \<and> y_topics y = Some topics \<and> topic \<in> set topics
             \<and> y_metrics y = Some metrics \<and> metric \<in> set metrics
           \<longrightarrow> (\<exists>cmd. eval_cmd m topic metric = Inr cmd
                      \<and> Log INFO (Rendered (join '' '' cmd)) \<in> set tr))"
proof -
  have 3: "\<exists>cmd. eval_cmd m topic metric = Inr cmd \<and> Log INFO (Rendered (join '' '' cmd)) \<in> set tr"
    if "evaluate_and_verify ev y True tr0 = Done tr
             \<and> y_methods y = Some ms \<and> m \<in> set ms
             \<and> m_name m \<in> {Some ''rrf'', Some ''average'', Some ''interpolation'', Some ''normalize''}
             \<and> y_topics y = Some topics \<and> topic \<in> set topics
             \<and> y_metrics y = Some metrics \<and> metric \<in> set metrics"
    for y tr0 tr ms topics metrics m topic metric
  proof -
    from that have n: "name_in eval_supported_methods m" by (simp only: name_in_eval_supported)
    from that evaluate_and_verify_done_events [of ev y True tr0 tr ms m topics topic metrics metric] n
    show ?thesis by (simp add: triple_event_def)
  qed
  from main_dry [OF assms, of ev] rendered_alpha [OF assms, of ev] 3 show ?thesis by blast
qed

theorem dry_run_renders_only_witness:
  "a_dry_run \<lparr>a_regression = ''demo'', a_dry_run = True, a_use_pyserini = True\<rparr>
   \<and> \<not> list_ex is_spawn
         (snd (main (example_env
                       (example_config [example_method ''interpolation'' (Some (PFloat 7 (- 1)))])
                       (Inl OSError))
                 \<lparr>a_regression = ''demo'', a_dry_run = True, a_use_pyserini = True\<rparr>))
   \<and> (\<exists>line. Log INFO (Rendered line)
           \<in> set (snd (main (example_env
                       (example_config [example_method ''interpolation'' (Some (PFloat 7 (- 1)))])
                       (Inl OSError))
                 \<lparr>a_regression = ''demo'', a_dry_run = True, a_use_pyserini = True\<rparr>))
         \<and> contains ''--alpha 0.7'' line)"
proof -
  let ?m = "example_method ''interpolation'' (Some (PFloat 7 (- 1)))"
  let ?y = "example_config [?m]"
  let ?ev = "example_env ?y (Inl OSError)"
  let ?a = "\<lparr>a_regression = ''demo'', a_dry_run = True, a_use_pyserini = True\<rparr>"
  have h: "a_dry_run ?a" by simp
  have pre: "a_use_pyserini ?a \<and> open_yaml ?ev (config_path (a_regression ?a)) = Inr ?y
       \<and> y_methods ?y = Some [?m] \<and> y_runs ?y = Some example_runs
       \<and> list_all (\<lambda>r. \<exists>f. r_file r = Some f \<and> path_exists ?ev f) example_runs
       \<and> list_all (\<lambda>m. m_output m \<noteq> None) [?m]
       \<and> ?m \<in> set [?m] \<and> m_name ?m = Some ''interpolation''
       \<and> m_alpha ?m = Some (PFloat 7 (- 1))"
    by (simp add: example_env_def example_config_def example_runs_def example_method_def)
  note t = dry_run_renders_only [OF h, of ?ev]
  from t have 1: "\<not> list_ex is_spawn (snd (main ?ev ?a))" by (rule conjunct1)
  from t have "\<forall>y ms rs m.
             a_use_pyserini ?a \<and> open_yaml ?ev (config_path (a_regression ?a)) = Inr y
             \<and> y_methods y = Some ms \<and> y_runs y = Some rs
             \<and> list_all (\<lambda>r. \<exists>f. r_file r = Some f \<and> path_exists ?ev f) rs
             \<and> list_all (\<lambda>m. m_output m \<noteq> None) ms
             \<and> m \<in> set ms \<and> m_name m = Some ''interpolation''
             \<and> m_alpha m = Some (PFloat 7 (- 1))
           \<longrightarrow> (\<exists>line. Log INFO (Rendered line) \<in> set (snd (main ?ev ?a))
                      \<and> contains ''--alpha 0.7'' line)"
    by (rule conjunct1 [OF conjunct2])
  from this [rule_format, of ?y "[?m]" example_runs ?m, OF pre]
  have 2: "\<exists>line. Log INFO (Rendered line) \<in> set (snd (main ?ev ?a))
                      \<and> contains ''--alpha 0.7'' line" .
  from h 1 2 show ?thesis by (intro conjI)
qed

subsection \<open>The exit status\<close>

text \<open>
  Claim C6, as stated: the process exits with status 1 exactly when the configuration
  file or a configured run file is missing, and with status 0 in every other run. It
  fails on the code: an exception that nothing catches ends the interpreter with status
  1 too, and after commands have run. Below the configuration and both run files exist,
  the evaluator prints \<open>0.3000\<close> alone, and the IndexError of line 216 ends the
  process.
\<close>

theorem uncaught_exception_counterexample:
  "open_yaml (example_env (example_config [example_method ''rrf'' None]) (Inr (0, Some ''0.3000'')))
     (config_path ''demo'') = Inr (example_config [example_method ''rrf'' None])
   \<and> list_all
       (\<lambda>r. path_exists
              (example_env (example_config [example_method ''rrf'' None]) (Inr (0, Some ''0.3000'')))
              (the (r_file r)))
       example_runs
   \<and> exit_status
       (fst (main (example_env (example_config [example_method ''rrf'' None])
                     (Inr (0, Some ''0.3000'')))
               \<lparr>a_regression = ''demo'', a_dry_run = False, a_use_pyserini = False\<rparr>)) = 1
   \<and> list_ex is_spawn
       (snd (main (example_env (example_config [example_method ''rrf'' None])
                     (Inr (0, Some ''0.3000'')))
               \<lparr>a_regression = ''demo'', a_dry_run = False, a_use_pyserini = False\<rparr>))"
  by (simp add: example_unparseable_main) (simp add: example_env_def example_runs_def)

text \<open>
  Claim C6, amended. The process exits with status 1, before any fusion or evaluation
  command is started, when the configuration file is missing or some configured run file
  does not exist. A run that ends by \<^verbatim>\<open>exit\<close> or at the end of the script has status 1
  only in these two cases and status 0 in every other, also when FAIL verdicts were
  logged.
\<close>

theorem exit_status_rule:
  "(open_yaml ev (config_path (a_regression a)) = Inl FileNotFoundError \<longrightarrow>
      main ev a = (Exit 1, [Log ERROR ConfigMissing]))
   \<and> (\<forall>y rs. open_yaml ev (config_path (a_regression a)) = Inr y \<and> y_runs y = Some rs
          \<and> list_ex (\<lambda>r. \<exists>f. r_file r = Some f \<and> \<not> path_exists ev f) rs \<longrightarrow>
          exit_status (fst (main ev a)) = 1 \<and> \<not> list_ex is_spawn (snd (main ev a)))
   \<and> (\<forall>n. fst (main ev a) = Exit n \<longrightarrow>
          n = 0
          \<or> (n = 1
              \<and> (open_yaml ev (config_path (a_regression a)) = Inl FileNotFoundError
                  \<or> (\<exists>y rs. open_yaml ev (config_path (a_regression a)) = Inr y
                         \<and> y_runs y = Some rs
                         \<and> list_ex (\<lambda>r. \<exists>f. r_file r = Some f \<and> \<not> path_exists ev f) rs))))
   \<and> (\<forall>n. fst (main ev a) = Exit n \<and> list_ex is_fail (snd (main ev a)) \<longrightarrow> n = 0)"
proof (intro conjI allI impI)
  assume "open_yaml ev (config_path (a_regression a)) = Inl FileNotFoundError"
  then show "main ev a = (Exit 1, [Log ERROR ConfigMissing])" by (simp add: main_cases)
next
  fix y rs
  assume h: "open_yaml ev (config_path (a_regression a)) = Inr y \<and> y_runs y = Some rs
          \<and> list_ex (\<lambda>r. \<exists>f. r_file r = Some f \<and> \<not> path_exists ev f) rs"
  then have nok: "check_run_files ev rs \<noteq> Inr None" using check_run_files_not_ok by blast
  have m: "main ev a = (case check_run_files ev rs of
                  Inl e \<Rightarrow> (Uncaught e, [])
                | Inr (Some f) \<Rightarrow> (Exit 1, [Log ERROR (RunFileMissing f)])
                | Inr None \<Rightarrow> run_regression ev a y)"
    using h by (simp add: main_cases)
  show "exit_status (fst (main ev a)) = 1" using nok
    by (simp add: m split: sum.splits option.splits)
  show "\<not> list_ex is_spawn (snd (main ev a))" using nok
    by (simp add: m split: sum.splits option.splits)
next
  fix n
  assume e: "fst (main ev a) = Exit n"
  show "n = 0
          \<or> (n = 1
              \<and> (open_yaml ev (config_path (a_regression a)) = Inl FileNotFoundError
                  \<or> (\<exists>y rs. open_yaml ev (config_path (a_regression a)) = Inr y
                         \<and> y_runs y = Some rs
                         \<and> list_ex (\<lambda>r. \<exists>f. r_file r = Some f \<and> \<not> path_exists ev f) rs)))"
  proof (cases "open_yaml ev (config_path (a_regression a))")
    case (Inl err)
    with e show ?thesis by (simp add: main_cases split: if_splits)
  next
    case (Inr y)
    show ?thesis
    proof (cases "y_runs y")
      case None
      with e Inr show ?thesis by (simp add: main_cases)
    next
      case (Some rs)
      show ?thesis
      proof (cases "check_run_files ev rs")
        case (Inl err)
        with e Inr Some show ?thesis by (simp add: main_cases)
      next
        case r: (Inr missing)
        show ?thesis
        proof (cases missing)
          case None
          with e Inr Some r have "fst (run_regression ev a y) = Exit n" by (simp add: main_cases)
          with run_regression_exit [of ev a y] show ?thesis by auto
        next
          case (Some f)
          with r have "list_ex (\<lambda>r. \<exists>f. r_file r = Some f \<and> \<not> path_exists ev f) rs"
            using check_run_files_missing by blast
          moreover from e Inr \<open>y_runs y = Some rs\<close> r Some have "n = 1" by (simp add: main_cases)
          ultimately show ?thesis using Inr \<open>y_runs y = Some rs\<close> by blast
        qed
      qed
    qed
  qed
next
  fix n
  assume e: "fst (main ev a) = Exit n \<and> list_ex is_fail (snd (main ev a))"
  show "n = 0"
  proof (cases "open_yaml ev (config_path (a_regression a))")
    case (Inl err)
    with e show ?thesis by (simp add: main_cases split: if_splits)
  next
    case (Inr y)
    show ?thesis
    proof (cases "y_runs y")
      case None
      with e Inr show ?thesis by (simp add: main_cases)
    next
      case (Some rs)
      show ?thesis
      proof (cases "check_run_files ev rs")
        case (Inl err)
        with e Inr Some show ?thesis by (simp add: main_cases)
      next
        case r: (Inr missing)
        show ?thesis
        proof (cases missing)
          case None
          with e Inr Some r have "fst (run_regression ev a y) = Exit n" by (simp add: main_cases)
          with run_regression_exit [of ev a y] show ?thesis by auto
        next
          case (Some f)
          with e Inr \<open>y_runs y = Some rs\<close> r show ?thesis by (simp add: main_cases)
        qed
      qed
    qed
  qed
qed

theorem exit_status_rule_witness:
  "open_yaml ((example_env (example_config []) (Inl OSError))
               \<lparr>path_exists := (\<lambda>p. p \<noteq> ''runs/run.dense.txt'')\<rparr>)
     (config_path (a_regression \<lparr>a_regression = ''demo'', a_dry_run = False, a_use_pyserini = False\<rparr>))
     = Inr (example_config [])
   \<and> y_runs (example_config []) = Some example_runs
   \<and> list_ex (\<lambda>r. \<exists>f. r_file r = Some f
                   \<and> \<not> path_exists ((example_env (example_config []) (Inl OSError))
                                     \<lparr>path_exists := (\<lambda>p. p \<noteq> ''runs/run.dense.txt'')\<rparr>) f)
       example_runs
   \<and> exit_status
       (fst (main ((example_env (example_config []) (Inl OSError))
                     \<lparr>path_exists := (\<lambda>p. p \<noteq> ''runs/run.dense.txt'')\<rparr>)
               \<lparr>a_regression = ''demo'', a_dry_run = False, a_use_pyserini = False\<rparr>)) = 1
   \<and> fst (main (example_env (example_config [example_method ''normalize'' None])
                  (Inr (0, Some (trec_eval_output ''0.3000''))))
            \<lparr>a_regression = ''demo'', a_dry_run = False, a_use_pyserini = False\<rparr>) = Exit 0
   \<and> list_ex is_fail
       (snd (main (example_env (example_config [example_method ''normalize'' None])
                     (Inr (0, Some (trec_eval_output ''0.3000''))))
               \<lparr>a_regression = ''demo'', a_dry_run = False, a_use_pyserini = False\<rparr>))"
proof -
  let ?ev = "(example_env (example_config []) (Inl OSError))
               \<lparr>path_exists := (\<lambda>p. p \<noteq> ''runs/run.dense.txt'')\<rparr>"
  let ?a = "\<lparr>a_regression = ''demo'', a_dry_run = False, a_use_pyserini = False\<rparr>"
  have pre: "open_yaml ?ev (config_path (a_regression ?a)) = Inr (example_config [])
       \<and> y_runs (example_config []) = Some example_runs
       \<and> list_ex (\<lambda>r. \<exists>f. r_file r = Some f \<and> \<not> path_exists ?ev f) example_runs"
    by (simp add: example_env_def example_config_def example_runs_def)
  have "\<forall>y rs. open_yaml ?ev (config_path (a_regression ?a)) = Inr y \<and> y_runs y = Some rs
          \<and> list_ex (\<lambda>r. \<exists>f. r_file r = Some f \<and> \<not> path_exists ?ev f) rs \<longrightarrow>
          exit_status (fst (main ?ev ?a)) = 1 \<and> \<not> list_ex is_spawn (snd (main ?ev ?a))"
    using exit_status_rule [of ?ev ?a] by (rule conjunct1 [OF conjunct2])
  from this [rule_format, of "example_config []" example_runs, OF pre]
  have 1: "exit_status (fst (main ?ev ?a)) = 1" by (rule conjunct1)
  from pre 1 show ?thesis by (simp add: example_normalize_main)
qed

subsection \<open>The two lists of supported methods\<close>

text \<open>
  Claim C10. The verification phase filters the methods with the list \<open>rrf\<close>,
  \<open>average\<close>, \<open>interpolation\<close>, \<open>normalize\<close>, which has \<open>normalize\<close> more than the
  list of the command construction. So every command that is constructed belongs to a
  method named \<open>rrf\<close>, \<open>average\<close> or \<open>interpolation\<close>, none to \<open>normalize\<close>; and yet,
  in every run of the verification that ends, the evaluation command of each triple of
  each method named \<open>normalize\<close> has been started. Such a triple can fail: in the example
  the only method is \<open>normalize\<close>, no fusion command runs, and its triple is logged as
  FAIL.
\<close>

theorem normalize_verified_without_fusion:
  "set supported_methods \<subset> set eval_supported_methods
   \<and> set eval_supported_methods - set supported_methods = {''normalize''}
   \<and> (\<forall>y use_pyserini ms rs cmds.
         y_methods y = Some ms \<and> y_runs y = Some rs
         \<and> snd (construct_fusion_commands y use_pyserini) = Inr cmds \<longrightarrow>
         (\<forall>cmd\<in>set cmds. \<exists>m\<in>set ms.
            m_name m \<in> {Some ''rrf'', Some ''average'', Some ''interpolation''}
            \<and> cmd = one_command use_pyserini (map (\<lambda>r. the (r_file r)) rs) m))
   \<and> (\<forall>ev y tr0 tr ms topics metrics m topic metric.
         evaluate_and_verify ev y False tr0 = Done tr
         \<and> y_methods y = Some ms \<and> m \<in> set ms \<and> m_name m = Some ''normalize''
         \<and> y_topics y = Some topics \<and> topic \<in> set topics
         \<and> y_metrics y = Some metrics \<and> metric \<in> set metrics \<longrightarrow>
         (\<exists>cmd. eval_cmd m topic metric = Inr cmd \<and> Spawn (join '' '' cmd) \<in> set tr))
   \<and> main (example_env (example_config [example_method ''normalize'' None])
              (Inr (0, Some (trec_eval_output ''0.3000''))))
        \<lparr>a_regression = ''demo'', a_dry_run = False, a_use_pyserini = False\<rparr> =
      (Exit 0,
       [Log INFO (UsingImplementation ''Anserini''), Log INFO (TestingMethods []),
        Log INFO VerifyBanner,
        Spawn ''bin/trec_eval -m ndcg_cut.10 tools/topics-and-qrels/qrels.dl19.txt runs/fused.normalize'',
        Log ERROR (Verdict False (4123 / 10000) (3 / 10) ''nDCG@10'' ''normalize'' ''dl19''),
        Log INFO ExecutionTime, Log ERROR SomeFailed, Log INFO ExecutionTime])"
proof -
  have sub: "set supported_methods \<subseteq> set eval_supported_methods"
    by (simp add: supported_methods_def eval_supported_methods_def)
  have nrm: "''normalize'' \<in> set eval_supported_methods" "''normalize'' \<notin> set supported_methods"
    by (simp_all add: supported_methods_def eval_supported_methods_def)
  have 1: "set supported_methods \<subset> set eval_supported_methods"
    using sub nrm by blast
  have 2: "set eval_supported_methods - set supported_methods = {''normalize''}"
    by (simp add: supported_methods_def eval_supported_methods_def insert_Diff_if)
  have 3: "\<forall>cmd\<in>set cmds. \<exists>m\<in>set ms.
            m_name m \<in> {Some ''rrf'', Some ''average'', Some ''interpolation''}
            \<and> cmd = one_command use_pyserini (map (\<lambda>r. the (r_file r)) rs) m"
    if h: "y_methods y = Some ms \<and> y_runs y = Some rs
         \<and> snd (construct_fusion_commands y use_pyserini) = Inr cmds"
    for y use_pyserini ms rs cmds
  proof -
    from h have h1: "y_methods y = Some ms" and h2: "y_runs y = Some rs"
      and h3: "snd (construct_fusion_commands y use_pyserini) = Inr cmds"
      by simp_all
    show ?thesis
    proof (cases "filter (name_in supported_methods) ms = []")
      case True
      with h3 have "cmds = []" by (simp add: construct_cases h1)
      then show ?thesis by simp
    next
      case False
      show ?thesis
      proof (cases "\<exists>r\<in>set rs. r_file r = None")
        case True
        with h3 False show ?thesis by (simp add: construct_cases run_files_of_cases h1 h2)
      next
        case no: False
        with h3 False have "cmds = map (one_command use_pyserini (map (\<lambda>r. the (r_file r)) rs))
                                   (filter (name_in supported_methods) ms)"
          by (simp add: construct_cases run_files_of_cases h1 h2)
        then show ?thesis by (auto simp: name_in_supported)
      qed
    qed
  qed
  have 4: "\<exists>cmd. eval_cmd m topic metric = Inr cmd \<and> Spawn (join '' '' cmd) \<in> set tr"
    if h: "evaluate_and_verify ev y False tr0 = Done tr
         \<and> y_methods y = Some ms \<and> m \<in> set ms \<and> m_name m = Some ''normalize''
         \<and> y_topics y = Some topics \<and> topic \<in> set topics
         \<and> y_metrics y = Some metrics \<and> metric \<in> set metrics"
    for ev y tr0 tr ms topics metrics m topic metric
  proof -
    from h have n: "name_in eval_supported_methods m" by (simp add: name_in_eval_supported)
    from h have "evaluate_and_verify ev y False tr0 = Done tr" "y_methods y = Some ms" "m \<in> set ms"
      "y_topics y = Some topics" "topic \<in> set topics" "y_metrics y = Some metrics"
      "metric \<in> set metrics"
      by simp_all
    from evaluate_and_verify_done_events [OF this(1,2,3) n this(4,5,6,7)]
    show ?thesis by (simp add: triple_event_def)
  qed
  note 5 = example_normalize_main
  show ?thesis
    apply (intro conjI allI impI)
        apply (rule 1)
       apply (rule 2)
      apply (erule 3)
     apply (erule 4)
    apply (rule 5)
    done
qed

lemma example_normalize_eval:
  "evaluate_and_verify
     (example_env (example_config [example_method ''normalize'' None])
        (Inr (0, Some (trec_eval_output ''0.3000''))))
     (example_config [example_method ''normalize'' None]) False [] =
   Done [Log INFO VerifyBanner,
         Spawn ''bin/trec_eval -m ndcg_cut.10 tools/topics-and-qrels/qrels.dl19.txt runs/fused.normalize'',
         Log ERROR (Verdict False (4123 / 10000) (3 / 10) ''nDCG@10'' ''normalize'' ''dl19''),
         Log INFO ExecutionTime, Log ERROR SomeFailed]"
  by (simp add: example_defs eval_defs)

theorem normalize_verified_without_fusion_witness:
  "evaluate_and_verify
     (example_env (example_config [example_method ''normalize'' None])
        (Inr (0, Some (trec_eval_output ''0.3000''))))
     (example_config [example_method ''normalize'' None]) False [] =
   Done [Log INFO VerifyBanner,
         Spawn ''bin/trec_eval -m ndcg_cut.10 tools/topics-and-qrels/qrels.dl19.txt runs/fused.normalize'',
         Log ERROR (Verdict False (4123 / 10000) (3 / 10) ''nDCG@10'' ''normalize'' ''dl19''),
         Log INFO ExecutionTime, Log ERROR SomeFailed]
   \<and> y_methods (example_config [example_method ''normalize'' None]) =
       Some [example_method ''normalize'' None]
   \<and> m_name (example_method ''normalize'' None) = Some ''normalize''
   \<and> y_topics (example_config [example_method ''normalize'' None]) = Some [example_topic]
   \<and> y_metrics (example_config [example_method ''normalize'' None]) = Some [example_metric]
   \<and> (\<exists>cmd. eval_cmd (example_method ''normalize'' None) example_topic example_metric = Inr cmd
          \<and> Spawn (join '' '' cmd)
              \<in> set [Log INFO VerifyBanner,
                      Spawn ''bin/trec_eval -m ndcg_cut.10 tools/topics-and-qrels/qrels.dl19.txt runs/fused.normalize'',
                      Log ERROR (Verdict False (4123 / 10000) (3 / 10) ''nDCG@10'' ''normalize'' ''dl19''),
                      Log INFO ExecutionTime, Log ERROR SomeFailed])"
proof -
  let ?m = "example_method ''normalize'' None"
  let ?y = "example_config [?m]"
  let ?ev = "example_env ?y (Inr (0, Some (trec_eval_output ''0.3000'')))"
  let ?tr = "[Log INFO VerifyBanner,
         Spawn ''bin/trec_eval -m ndcg_cut.10 tools/topics-and-qrels/qrels.dl19.txt runs/fused.normalize'',
         Log ERROR (Verdict False (4123 / 10000) (3 / 10) ''nDCG@10'' ''normalize'' ''dl19''),
         Log INFO ExecutionTime, Log ERROR SomeFailed]"
  have c: "y_methods ?y = Some [?m]" "m_name ?m = Some ''normalize''"
    "y_topics ?y = Some [example_topic]" "y_metrics ?y = Some [example_metric]"
    by (simp_all add: example_config_def example_method_def)
  have pre: "evaluate_and_verify ?ev ?y False [] = Done ?tr
         \<and> y_methods ?y = Some [?m] \<and> ?m \<in> set [?m] \<and> m_name ?m = Some ''normalize''
         \<and> y_topics ?y = Some [example_topic] \<and> example_topic \<in> set [example_topic]
         \<and> y_metrics ?y = Some [example_metric] \<and> example_metric \<in> set [example_metric]"
    using example_normalize_eval c by simp
  have "\<forall>ev y tr0 tr ms topics metrics m topic metric.
         evaluate_and_verify ev y False tr0 = Done tr
         \<and> y_methods y = Some ms \<and> m \<in> set ms \<and> m_name m = Some ''normalize''
         \<and> y_topics y = Some topics \<and> topic \<in> set topics
         \<and> y_metrics y = Some metrics \<and> metric \<in> set metrics \<longrightarrow>
         (\<exists>cmd. eval_cmd m topic metric = Inr cmd \<and> Spawn (join '' '' cmd) \<in> set tr)"
    using normalize_verified_without_fusion by (rule conjunct1 [OF conjunct2 [OF conjunct2 [OF conjunct2]]])
  from this [rule_format, OF pre]
  have "\<exists>cmd. eval_cmd ?m example_topic example_metric = Inr cmd \<and> Spawn (join '' '' cmd) \<in> set ?tr" .
  with example_normalize_eval c show ?thesis by (intro conjI)
qed

end
